theory Spec2Isabelle
  imports Complex_Main
begin

section \<open>SysGraph rule engine: values, field resolution, condition evaluation\<close>

text \<open>
  A shallow embedding of \<^verbatim>\<open>src/rules/__init__.py\<close> (classes \<^verbatim>\<open>Rule\<close>,
  \<^verbatim>\<open>RuleExecutionResult\<close>, \<^verbatim>\<open>RuleEngine\<close>) together with the parts of
  \<^verbatim>\<open>src/models/__init__.py\<close> and \<^verbatim>\<open>src/core/config_models.py\<close> it uses.

  Conventions of the model:
  \<^item> Python values are the datatype \<open>pyval\<close>; a missing key and \<^verbatim>\<open>None\<close> are the
    same value \<open>PNone\<close>, as in the source (\<^verbatim>\<open>_get_nested_value\<close> returns
    \<^verbatim>\<open>None\<close> for a missing key).
  \<^item> A finite Python float is the real number it stands for (\<open>PFloat r\<close>); infinite and
    NaN floats inside the data are outside the model. The result of a float operation is
    a \<open>pyfloat\<close>: finite, infinite or NaN. Converting an integer to a float and dividing
    two integers round to the nearest double, ties to even, and raise
    \<^verbatim>\<open>OverflowError\<close> beyond the range of a double, as CPython does. A sum that
    involves floats depends on the interpreter's version and comes from the runtime.
  \<^item> A \<^verbatim>\<open>dict\<close> is an association list with string keys, read with \<open>map_of\<close>.
  \<^item> Strings are byte lists (UTF-8); the non-ASCII literals of the source are written
    as their bytes.
  \<^item> Every \<^verbatim>\<open>raise\<close> is a value \<open>Inl e\<close> of a sum type, every
    \<^verbatim>\<open>try/except\<close> a case distinction on it.
  \<^item> What the interpreter and the pydantic library do outside this repository
    (\<^verbatim>\<open>float(str)\<close>, \<^verbatim>\<open>str()\<close> of numbers and containers, validation of a
    model's fields, the clock) is a parameter \<open>L\<close> of type \<open>runtime\<close>.
\<close>

subsection \<open>Values\<close>

datatype pyval =
    PNone
  | PBool bool
  | PInt int
  | PFloat real
  | PStr string
  | PList "pyval list"
  | PDict "(string \<times> pyval) list"
  | PDatetime int

datatype error =
    TypeError | ValueError | AttributeError | ValidationError | OSError
  | OverflowError | ZeroDivisionError

text \<open>\<^verbatim>\<open>isinstance(v, list)\<close>, \<^verbatim>\<open>isinstance(v, dict)\<close> and
  \<^verbatim>\<open>isinstance(v, (int, float))\<close>; \<^verbatim>\<open>bool\<close> is a subclass of \<^verbatim>\<open>int\<close>.\<close>

fun is_list :: "pyval \<Rightarrow> bool" where
  "is_list (PList xs) = True"
| "is_list v = False"

fun is_dict :: "pyval \<Rightarrow> bool" where
  "is_dict (PDict kvs) = True"
| "is_dict v = False"

fun num_of :: "pyval \<Rightarrow> real option" where
  "num_of (PBool b) = Some (if b then 1 else 0)"
| "num_of (PInt n) = Some (real_of_int n)"
| "num_of (PFloat r) = Some r"
| "num_of v = None"

definition is_number :: "pyval \<Rightarrow> bool" where
  "is_number v = (num_of v \<noteq> None)"

text \<open>The value of an \<^verbatim>\<open>int\<close> (a \<^verbatim>\<open>bool\<close> included).\<close>

fun int_of :: "pyval \<Rightarrow> int option" where
  "int_of (PBool b) = Some (if b then 1 else 0)"
| "int_of (PInt n) = Some n"
| "int_of v = None"

definition is_int :: "pyval \<Rightarrow> bool" where
  "is_int v = (int_of v \<noteq> None)"

subsection \<open>Floating-point results\<close>

text \<open>The result of a float operation, and the comparisons \<^verbatim>\<open><\<close> and \<^verbatim>\<open><=\<close> of
  two floats: NaN compares false with everything.\<close>

datatype pyfloat = Finite real | PosInf | NegInf | NaN

fun pyfloat_less :: "pyfloat \<Rightarrow> pyfloat \<Rightarrow> bool" where
  "pyfloat_less (Finite x) (Finite y) = (x < y)"
| "pyfloat_less (Finite x) PosInf = True"
| "pyfloat_less NegInf (Finite y) = True"
| "pyfloat_less NegInf PosInf = True"
| "pyfloat_less a b = False"

fun pyfloat_le :: "pyfloat \<Rightarrow> pyfloat \<Rightarrow> bool" where
  "pyfloat_le (Finite x) (Finite y) = (x \<le> y)"
| "pyfloat_le NaN b = False"
| "pyfloat_le a NaN = False"
| "pyfloat_le NegInf b = True"
| "pyfloat_le a PosInf = True"
| "pyfloat_le a b = False"

text \<open>\<^verbatim>\<open>n.bit_length()\<close> for \<open>n \<ge> 0\<close>.\<close>

fun bit_length :: "nat \<Rightarrow> nat" where
  "bit_length n = (if n = 0 then 0 else Suc (bit_length (n div 2)))"

declare bit_length.simps [simp del]

text \<open>The quotient \<open>a / b\<close> of two naturals rounded to the nearest natural, a tie to the
  even one.\<close>

definition round_half_even :: "nat \<Rightarrow> nat \<Rightarrow> nat" where
  "round_half_even a b =
     (let quo = a div b; r = a mod b
      in if b < 2 * r \<or> (2 * r = b \<and> odd quo) then quo + 1 else quo)"

text \<open>
  True division \<^verbatim>\<open>p / q\<close> of two integers, \<open>q > 0\<close>, as CPython computes it: the
  double nearest to the quotient, ties to even. With
  \<^verbatim>\<open>2**(e-1) <= abs(p) / q < 2**e\<close> the mantissa has 53 bits, so the unit in the last
  place is \<^verbatim>\<open>2**s\<close> with \<^verbatim>\<open>s = e - 53\<close>, but not below \<^verbatim>\<open>2**-1074\<close>
  (subnormal results). \<open>None\<close> is \<^verbatim>\<open>OverflowError\<close>: the rounded result reaches
  \<^verbatim>\<open>2**1024\<close>. \<^verbatim>\<open>float(n)\<close> rounds in the same way and is \<open>int_truediv n 1\<close>.
\<close>

definition int_truediv :: "int \<Rightarrow> nat \<Rightarrow> real option" where
  "int_truediv p q =
     (if p = 0 then Some 0
      else
        (let a = nat \<bar>p\<bar>;
             d = int (bit_length a) - int (bit_length q);
             e = (if q * 2 ^ nat d \<le> a * 2 ^ nat (- d) then d + 1 else d);
             s = max (e - 53) (- 1074);
             mant = round_half_even (a * 2 ^ nat (- s)) (q * 2 ^ nat s);
             v = real (mant * 2 ^ nat s) / 2 ^ nat (- s)
         in if 2 ^ 1024 \<le> v then None else Some (if p < 0 then - v else v)))"

text \<open>Truth value of an object (\<^verbatim>\<open>bool(v)\<close>, \<^verbatim>\<open>not v\<close>, \<^verbatim>\<open>x and v\<close>).\<close>

fun py_truthy :: "pyval \<Rightarrow> bool" where
  "py_truthy PNone = False"
| "py_truthy (PBool b) = b"
| "py_truthy (PInt n) = (n \<noteq> 0)"
| "py_truthy (PFloat r) = (r \<noteq> 0)"
| "py_truthy (PStr s) = (s \<noteq> [])"
| "py_truthy (PList xs) = (xs \<noteq> [])"
| "py_truthy (PDict kvs) = (kvs \<noteq> [])"
| "py_truthy (PDatetime t) = True"

text \<open>\<^verbatim>\<open>a == b\<close>: numbers compare by value across \<^verbatim>\<open>bool\<close>, \<^verbatim>\<open>int\<close> and
  \<^verbatim>\<open>float\<close>, lists element by element, dicts as mappings.\<close>

function (sequential) py_eq :: "pyval \<Rightarrow> pyval \<Rightarrow> bool" where
  "py_eq PNone b = (b = PNone)"
| "py_eq (PStr s) b = (b = PStr s)"
| "py_eq (PDatetime t) b = (b = PDatetime t)"
| "py_eq (PList xs) b =
     (case b of
        PList ys \<Rightarrow> length xs = length ys \<and> (\<forall>(x, y) \<in> set (zip xs ys). py_eq x y)
      | _ \<Rightarrow> False)"
| "py_eq (PDict kvs) b =
     (case b of
        PDict kws \<Rightarrow>
          set (map fst kvs) = set (map fst kws) \<and>
          (\<forall>k \<in> set (map fst kvs).
             case map_of kvs k of
               None \<Rightarrow> False
             | Some v \<Rightarrow> (case map_of kws k of None \<Rightarrow> False | Some w \<Rightarrow> py_eq v w))
      | _ \<Rightarrow> False)"
| "py_eq a b =
     (case num_of a of
        None \<Rightarrow> False
      | Some x \<Rightarrow> (case num_of b of None \<Rightarrow> False | Some y \<Rightarrow> x = y))"
  by pat_completeness auto

lemma size_list_member:
  "x \<in> set xs \<Longrightarrow> f x < Suc (size_list f xs)"
  by (induction xs) auto

lemma size_dict_member:
  "(k, v) \<in> set kvs \<Longrightarrow> size v < Suc (size_list (size_prod (\<lambda>_. 0) size) kvs)"
  using size_list_member [of "(k, v)" kvs "size_prod (\<lambda>_. 0) size"] by simp

termination py_eq
proof (relation "measure (\<lambda>(a, b). size a)", goal_cases)
  case 1
  show ?case by simp
next
  case (2 xs b ys z x y)
  then have "x \<in> set xs"
    by (auto dest: set_zip_leftD)
  then show ?case
    using size_list_member [of x xs size] by simp
next
  case (3 kvs b kws k v w)
  then have "(k, v) \<in> set kvs"
    by (auto dest: map_of_SomeD)
  then show ?case
    using size_dict_member [of k v kvs] by simp
qed

subsection \<open>Rules, results and the runtime\<close>

text \<open>Class \<^verbatim>\<open>Rule\<close>. Conditions and actions are \<^verbatim>\<open>Dict[str, Any]\<close>; the two
  timestamps are wall-clock readings and are left out.\<close>

record Rule =
  rule_id :: string
  name :: string
  category :: string
  description :: string
  severity :: string
  conditions :: "(string \<times> pyval) list list"
  actions :: "(string \<times> pyval) list list"
  enabled :: bool
  confidence :: real
  version :: string
  author :: string

text \<open>Class \<^verbatim>\<open>DiagnosisIssue\<close> (without its timestamp).\<close>

record DiagnosisIssue =
  issue_id :: string
  issue_category :: string
  issue_severity :: string
  title :: string
  issue_description :: string
  recommendation :: string
  issue_confidence :: real
  issue_evidence :: "string list"

text \<open>Class \<^verbatim>\<open>RuleExecutionResult\<close> (without \<^verbatim>\<open>execution_time\<close> and
  \<^verbatim>\<open>timestamp\<close>, which are clock readings).\<close>

record RuleExecutionResult =
  res_rule_id :: string
  matched :: bool
  res_confidence :: real
  evidence :: "string list"
  actions_taken :: "string list"
  issues_found :: "DiagnosisIssue list"

text \<open>Class \<^verbatim>\<open>RuleEngineConfiguration\<close>.\<close>

record RuleEngineConfiguration =
  enable_builtin_rules :: bool
  enable_remote_rules :: bool
  remote_rules_url :: string
  rules_update_interval :: int
  rule_confidence_threshold :: real

text \<open>The state of a \<^verbatim>\<open>RuleEngine\<close> object that rule evaluation reads.\<close>

record RuleEngine =
  config :: RuleEngineConfiguration
  builtin_rules :: "Rule list"
  remote_rules :: "Rule list"

text \<open>
  What lies outside the repository:
  \<^item> \<open>float_of_str s\<close>: \<^verbatim>\<open>float(s)\<close> for a string, \<open>None\<close> when it raises
    \<^verbatim>\<open>ValueError\<close>;
  \<^item> \<open>float_mean vs\<close>: \<^verbatim>\<open>sum(vs) / len(vs)\<close> for a non-empty list of numbers with a
    float among them, in the double arithmetic of the interpreter (the order and the
    compensation of the additions differ between versions), \<open>None\<close> when an integer
    among them is too large for a float (\<^verbatim>\<open>OverflowError\<close>);
  \<^item> \<open>repr_of v\<close>: \<^verbatim>\<open>str(v)\<close> for numbers, containers and datetimes;
  \<^item> \<open>coerce_str v\<close>: what pydantic makes of a number, boolean or datetime given
    for a \<^verbatim>\<open>str\<close> field (\<open>None\<close> when it rejects the value);
  \<^item> \<open>validate_rule kvs\<close>: pydantic's validation of the keyword arguments \<open>kvs\<close>
    against class \<^verbatim>\<open>Rule\<close> (\<open>None\<close> when it raises);
  \<^item> \<open>now_stamp\<close>: \<^verbatim>\<open>datetime.now().strftime('%Y%m%d_%H%M%S')\<close>.
\<close>

record runtime =
  float_of_str :: "string \<Rightarrow> pyfloat option"
  float_mean :: "pyval list \<Rightarrow> pyfloat option"
  repr_of :: "pyval \<Rightarrow> string"
  coerce_str :: "pyval \<Rightarrow> string option"
  validate_rule :: "(string \<times> pyval) list \<Rightarrow> Rule option"
  now_stamp :: string

subsection \<open>Builtins of the interpreter used by the engine\<close>

text \<open>\<^verbatim>\<open>float(v)\<close>.\<close>

definition py_float :: "runtime \<Rightarrow> pyval \<Rightarrow> error + pyfloat" where
  "py_float L v =
     (case v of
        PNone \<Rightarrow> Inl TypeError
      | PBool b \<Rightarrow> Inr (Finite (if b then 1 else 0))
      | PInt n \<Rightarrow> (case int_truediv n 1 of None \<Rightarrow> Inl OverflowError | Some r \<Rightarrow> Inr (Finite r))
      | PFloat r \<Rightarrow> Inr (Finite r)
      | PStr s \<Rightarrow> (case float_of_str L s of None \<Rightarrow> Inl ValueError | Some a \<Rightarrow> Inr a)
      | PList xs \<Rightarrow> Inl TypeError
      | PDict kvs \<Rightarrow> Inl TypeError
      | PDatetime t \<Rightarrow> Inl TypeError)"

text \<open>\<^verbatim>\<open>str(v)\<close>, also what an f-string puts for \<^verbatim>\<open>{v}\<close>.\<close>

definition py_str :: "runtime \<Rightarrow> pyval \<Rightarrow> string" where
  "py_str L v =
     (case v of
        PNone \<Rightarrow> ''None''
      | PBool b \<Rightarrow> (if b then ''True'' else ''False'')
      | PStr s \<Rightarrow> s
      | _ \<Rightarrow> repr_of L v)"

text \<open>\<^verbatim>\<open>s.startswith(t)\<close> and \<^verbatim>\<open>t in s\<close> for strings.\<close>

definition starts_with :: "string \<Rightarrow> string \<Rightarrow> bool" where
  "starts_with s t = (take (length t) s = t)"

primrec is_substring :: "string \<Rightarrow> string \<Rightarrow> bool" where
  "is_substring t [] = (t = [])"
| "is_substring t (c # cs) = (starts_with (c # cs) t \<or> is_substring t cs)"

text \<open>\<^verbatim>\<open>s.split(sep, 1)\<close> for a non-empty separator: one piece when \<open>sep\<close> does not
  occur, otherwise the text before its first occurrence and the text after it.\<close>

primrec split_once :: "string \<Rightarrow> string \<Rightarrow> string list" where
  "split_once sep [] = [[]]"
| "split_once sep (c # cs) =
     (if starts_with (c # cs) sep then [[], drop (length sep) (c # cs)]
      else (case split_once sep cs of
              [a, b] \<Rightarrow> [c # a, b]
            | _ \<Rightarrow> [c # cs]))"

text \<open>\<^verbatim>\<open>s.split(d)\<close> for a single character \<open>d\<close>.\<close>

primrec split_char :: "char \<Rightarrow> string \<Rightarrow> string list" where
  "split_char d [] = [[]]"
| "split_char d (c # cs) =
     (if c = d then [] # split_char d cs
      else (case split_char d cs of
              [] \<Rightarrow> [[c]]
            | w # ws \<Rightarrow> (c # w) # ws))"

text \<open>\<^verbatim>\<open>x > t\<close> for a number \<open>x\<close>: a number on the right is compared by value,
  anything else raises \<^verbatim>\<open>TypeError\<close>.\<close>

definition num_gt :: "real \<Rightarrow> pyval \<Rightarrow> error + bool" where
  "num_gt x t = (case num_of t of None \<Rightarrow> Inl TypeError | Some y \<Rightarrow> Inr (y < x))"

text \<open>\<^verbatim>\<open>a > t\<close> for a float \<open>a\<close>: Python compares a float with an \<^verbatim>\<open>int\<close> or a
  float by value, without rounding; anything else on the right raises
  \<^verbatim>\<open>TypeError\<close>.\<close>

definition float_gt :: "pyfloat \<Rightarrow> pyval \<Rightarrow> error + bool" where
  "float_gt a t =
     (case num_of t of None \<Rightarrow> Inl TypeError | Some y \<Rightarrow> Inr (pyfloat_less (Finite y) a))"

text \<open>\<^verbatim>\<open>item.get(key, dflt)\<close>: only a dict has \<^verbatim>\<open>get\<close>; a list or dict as key is
  unhashable; the keys of a dict are strings, so no other key is found.\<close>

definition item_get :: "pyval \<Rightarrow> pyval \<Rightarrow> pyval \<Rightarrow> error + pyval" where
  "item_get item key dflt =
     (case item of
        PDict kvs \<Rightarrow>
          (case key of
             PStr k \<Rightarrow> Inr (case map_of kvs k of None \<Rightarrow> dflt | Some v \<Rightarrow> v)
           | PList xs \<Rightarrow> Inl TypeError
           | PDict d \<Rightarrow> Inl TypeError
           | _ \<Rightarrow> Inr dflt)
      | _ \<Rightarrow> Inl AttributeError)"

text \<open>\<^verbatim>\<open>d.get(key, dflt)\<close> on a dict of the source with a literal key.\<close>

definition dict_get :: "(string \<times> pyval) list \<Rightarrow> string \<Rightarrow> pyval \<Rightarrow> pyval" where
  "dict_get d k dflt = (case map_of d k of None \<Rightarrow> dflt | Some v \<Rightarrow> v)"

subsection \<open>Field resolver\<close>

text \<open>\<^verbatim>\<open>RuleEngine._get_nested_value\<close>: the loop over \<^verbatim>\<open>path.split('.')\<close>.\<close>

fun walk_keys :: "pyval \<Rightarrow> string list \<Rightarrow> pyval" where
  "walk_keys current [] = current"
| "walk_keys (PDict kvs) (key # keys) =
     (case map_of kvs key of None \<Rightarrow> PNone | Some v \<Rightarrow> walk_keys v keys)"
| "walk_keys current (key # keys) = PNone"

definition get_nested_value :: "pyval \<Rightarrow> string \<Rightarrow> pyval" where
  "get_nested_value data path = walk_keys data (split_char CHR ''.'' path)"

text \<open>\<^verbatim>\<open>RuleEngine._get_field_value\<close>. The body of its \<^verbatim>\<open>try\<close> first; a field path
  that is not a string makes \<^verbatim>\<open>'[*]' in field_path\<close> or \<^verbatim>\<open>.split\<close> raise.\<close>

definition get_field_value_body :: "pyval \<Rightarrow> pyval \<Rightarrow> error + pyval" where
  "get_field_value_body data field_path =
     (case field_path of
        PStr p \<Rightarrow>
          (if is_substring ''[*]'' p then
             (case split_once ''[*]'' p of
                [base_path, array_field] \<Rightarrow>
                  (case get_nested_value data base_path of
                     PList base_value \<Rightarrow>
                       (let array_field' =
                              (if starts_with array_field ''.'' then drop 1 array_field
                               else array_field)
                        in if array_field' \<noteq> []
                           then Inr (PList (map (\<lambda>item. get_nested_value item array_field')
                                              (filter is_dict base_value)))
                           else Inr (PList base_value))
                   | _ \<Rightarrow> Inr (PList []))
              | _ \<Rightarrow> Inl ValueError)
           else Inr (get_nested_value data p))
      | PList xs \<Rightarrow> Inl AttributeError
      | PDict kvs \<Rightarrow> Inl AttributeError
      | _ \<Rightarrow> Inl TypeError)"

definition get_field_value :: "pyval \<Rightarrow> pyval \<Rightarrow> pyval" where
  "get_field_value data field_path =
     (case get_field_value_body data field_path of
        Inl e \<Rightarrow> PNone
      | Inr v \<Rightarrow> v)"

subsection \<open>Condition evaluator\<close>

text \<open>\<^verbatim>\<open>float(field_value) REL float(target_value)\<close>, left operand first.\<close>

definition float_compare ::
  "runtime \<Rightarrow> (pyfloat \<Rightarrow> pyfloat \<Rightarrow> bool) \<Rightarrow> pyval \<Rightarrow> pyval \<Rightarrow> error + bool" where
  "float_compare L rel a b =
     (case py_float L a of
        Inl e \<Rightarrow> Inl e
      | Inr x \<Rightarrow> (case py_float L b of Inl e \<Rightarrow> Inl e | Inr y \<Rightarrow> Inr (rel x y)))"

text \<open>\<^verbatim>\<open>target_value in str(field_value)\<close>: the left operand must be a string.\<close>

definition str_contains :: "runtime \<Rightarrow> pyval \<Rightarrow> pyval \<Rightarrow> error + bool" where
  "str_contains L target_value field_value =
     (case target_value of
        PStr t \<Rightarrow> Inr (is_substring t (py_str L field_value))
      | _ \<Rightarrow> Inl TypeError)"

text \<open>\<^verbatim>\<open>all(not item.get(field_check, True) for item in field_value)\<close> and
  \<^verbatim>\<open>any(item.get(field_check, False) for item in field_value)\<close>: both stop at the
  first element that decides the result, and an element that raises ends the loop.\<close>

fun all_not_get :: "pyval list \<Rightarrow> pyval \<Rightarrow> error + bool" where
  "all_not_get [] field_check = Inr True"
| "all_not_get (item # rest) field_check =
     (case item_get item field_check (PBool True) of
        Inl e \<Rightarrow> Inl e
      | Inr v \<Rightarrow> (if \<not> py_truthy v then all_not_get rest field_check else Inr False))"

fun any_get :: "pyval list \<Rightarrow> pyval \<Rightarrow> error + bool" where
  "any_get [] field_check = Inr False"
| "any_get (item # rest) field_check =
     (case item_get item field_check (PBool False) of
        Inl e \<Rightarrow> Inl e
      | Inr v \<Rightarrow> (if py_truthy v then Inr True else any_get rest field_check))"

text \<open>The \<^verbatim>\<open>avg>\<close> branch. \<open>numeric_values\<close> is the list comprehension of the
  source. \<open>py_mean\<close> is \<^verbatim>\<open>sum(nums) / len(nums)\<close>: the sum of integers is an exact
  integer and its division by the length is the rounded true division; a list with a
  float is summed and divided in the interpreter's double arithmetic.\<close>

definition numeric_values :: "pyval list \<Rightarrow> pyval list" where
  "numeric_values xs = filter is_number xs"

definition py_mean :: "runtime \<Rightarrow> pyval list \<Rightarrow> error + pyfloat" where
  "py_mean L nums =
     (if nums = [] then Inl ZeroDivisionError
      else if list_all is_int nums then
        (case int_truediv (sum_list (map (\<lambda>v. case int_of v of None \<Rightarrow> 0 | Some n \<Rightarrow> n) nums))
                (length nums) of
           None \<Rightarrow> Inl OverflowError
         | Some r \<Rightarrow> Inr (Finite r))
      else (case float_mean L nums of None \<Rightarrow> Inl OverflowError | Some a \<Rightarrow> Inr a))"

definition avg_gt :: "runtime \<Rightarrow> pyval list \<Rightarrow> pyval \<Rightarrow> error + bool" where
  "avg_gt L xs target_value =
     (let nums = numeric_values xs
      in if nums \<noteq> []
         then (case py_mean L nums of
                 Inl e \<Rightarrow> Inl e
               | Inr avg_value \<Rightarrow> float_gt avg_value target_value)
         else Inr False)"

text \<open>\<^verbatim>\<open>RuleEngine._evaluate_condition\<close>: the body of the \<^verbatim>\<open>try\<close>, branch by branch
  in the order of the source, then the function with its \<^verbatim>\<open>except Exception\<close>.\<close>

definition evaluate_condition_body ::
  "runtime \<Rightarrow> pyval \<Rightarrow> pyval \<Rightarrow> pyval \<Rightarrow> pyval \<Rightarrow> error + bool" where
  "evaluate_condition_body L field_value operator target_value field_check =
     (if operator = PStr ''>'' then
        float_compare L (\<lambda>x y. pyfloat_less y x) field_value target_value
      else if operator = PStr ''<'' then
        float_compare L (\<lambda>x y. pyfloat_less x y) field_value target_value
      else if operator = PStr ''>='' then
        float_compare L (\<lambda>x y. pyfloat_le y x) field_value target_value
      else if operator = PStr ''<='' then
        float_compare L (\<lambda>x y. pyfloat_le x y) field_value target_value
      else if operator = PStr ''=='' then Inr (py_eq field_value target_value)
      else if operator = PStr ''!='' then Inr (\<not> py_eq field_value target_value)
      else if operator = PStr ''contains'' then str_contains L target_value field_value
      else if operator = PStr ''count'' then
        (case field_value of
           PList xs \<Rightarrow> num_gt (real (length xs)) target_value
         | _ \<Rightarrow> Inr False)
      else if operator = PStr ''all_false'' \<and> py_truthy field_check then
        (case field_value of
           PList xs \<Rightarrow> all_not_get xs field_check
         | _ \<Rightarrow> Inr False)
      else if operator = PStr ''none_true'' \<and> py_truthy field_check then
        (case field_value of
           PList xs \<Rightarrow> (case any_get xs field_check of Inl e \<Rightarrow> Inl e | Inr b \<Rightarrow> Inr (\<not> b))
         | _ \<Rightarrow> Inr False)
      else if operator = PStr ''avg>'' \<and> is_list field_value then
        (case field_value of
           PList xs \<Rightarrow> avg_gt L xs target_value
         | _ \<Rightarrow> Inr False)
      else Inr False)"

definition evaluate_condition :: "runtime \<Rightarrow> pyval \<Rightarrow> pyval \<Rightarrow> pyval \<Rightarrow> pyval \<Rightarrow> bool" where
  "evaluate_condition L field_value operator target_value field_check =
     (case evaluate_condition_body L field_value operator target_value field_check of
        Inl e \<Rightarrow> False
      | Inr b \<Rightarrow> b)"

subsection \<open>Text of the source that is not ASCII\<close>

definition utf8 :: "nat list \<Rightarrow> string" where
  "utf8 bs = map char_of bs"

text \<open>The literals of the evidence and action messages, as UTF-8 bytes: "matched",
  "not matched (actual value: ", "create issue: ", "log: ", "unknown action type: ",
  "rule ", " was triggered", "please check" and "related configuration".\<close>

definition txt_matched :: string where
  "txt_matched = utf8 [229, 140, 185, 233, 133, 141]"

definition txt_not_matched :: string where
  "txt_not_matched = utf8 [228, 184, 141, 229, 140, 185, 233, 133, 141, 32, 40, 229, 174, 158,
     233, 153, 133, 229, 128, 188, 58, 32]"

definition txt_create_issue :: string where
  "txt_create_issue = utf8 [229, 136, 155, 229, 187, 186, 233, 151, 174, 233, 162, 152, 58, 32]"

definition txt_log :: string where
  "txt_log = utf8 [232, 174, 176, 229, 189, 149, 230, 151, 165, 229, 191, 151, 58, 32]"

definition txt_unknown_action :: string where
  "txt_unknown_action = utf8 [230, 156, 170, 231, 159, 165, 229, 138, 168, 228, 189, 156, 231,
     177, 187, 229, 158, 139, 58, 32]"

definition txt_rule :: string where
  "txt_rule = utf8 [232, 167, 132, 229, 136, 153, 32]"

definition txt_triggered :: string where
  "txt_triggered = utf8 [32, 232, 162, 171, 232, 167, 166, 229, 143, 145]"

definition txt_please_check :: string where
  "txt_please_check = utf8 [232, 175, 183, 230, 163, 128, 230, 159, 165]"

definition txt_related_config :: string where
  "txt_related_config = utf8 [231, 155, 184, 229, 133, 179, 233, 133, 141, 231, 189, 174]"

subsection \<open>Conditions of a rule\<close>

text \<open>One iteration of the loop of \<^verbatim>\<open>RuleEngine._check_conditions\<close>: whether the
  condition matched, and its evidence line. \<^verbatim>\<open>_get_field_value\<close> and
  \<^verbatim>\<open>_evaluate_condition\<close> catch their own exceptions and the f-strings format plain
  values, so the \<^verbatim>\<open>except\<close> branch of the loop body is never taken.\<close>

definition check_condition ::
  "runtime \<Rightarrow> (string \<times> pyval) list \<Rightarrow> pyval \<Rightarrow> bool \<times> string" where
  "check_condition L condition snapshot_dict =
     (let field = dict_get condition ''field'' (PStr []);
          operator = dict_get condition ''operator'' (PStr ''=='');
          val = dict_get condition ''value'' PNone;
          field_check = dict_get condition ''field_check'' PNone;
          field_value = get_field_value snapshot_dict field;
          m = evaluate_condition L field_value operator val field_check;
          head = py_str L field @ '' '' @ py_str L operator @ '' '' @ py_str L val @ '': ''
      in if m then (True, head @ txt_matched)
         else (False, head @ txt_not_matched @ py_str L field_value @ '')''))"

text \<open>\<^verbatim>\<open>RuleEngine._check_conditions\<close>: \<open>all_matched\<close> and the evidence, one line
  per condition in the order of the list.\<close>

primrec check_conditions ::
  "runtime \<Rightarrow> (string \<times> pyval) list list \<Rightarrow> pyval \<Rightarrow> bool \<times> string list" where
  "check_conditions L [] snapshot_dict = (True, [])"
| "check_conditions L (condition # rest) snapshot_dict =
     (let (m, line) = check_condition L condition snapshot_dict;
          (all_matched, lines) = check_conditions L rest snapshot_dict
      in (m \<and> all_matched, line # lines))"

subsection \<open>Action executor\<close>

text \<open>Validation of a value given for a \<^verbatim>\<open>str\<close> field of a pydantic model: a
  string is taken as it is; \<^verbatim>\<open>None\<close>, a list and a dict are rejected.\<close>

definition pydantic_str :: "runtime \<Rightarrow> pyval \<Rightarrow> error + string" where
  "pydantic_str L v =
     (case v of
        PStr s \<Rightarrow> Inr s
      | PNone \<Rightarrow> Inl ValidationError
      | PList xs \<Rightarrow> Inl ValidationError
      | PDict kvs \<Rightarrow> Inl ValidationError
      | _ \<Rightarrow> (case coerce_str L v of None \<Rightarrow> Inl ValidationError | Some s \<Rightarrow> Inr s))"

text \<open>\<^verbatim>\<open>RuleEngine._execute_action\<close>: the description of what was done and the issue
  created, if any. Constructing the \<^verbatim>\<open>DiagnosisIssue\<close> validates the three fields
  that come from the action.\<close>

definition execute_action ::
  "runtime \<Rightarrow> (string \<times> pyval) list \<Rightarrow> Rule \<Rightarrow> string list \<Rightarrow>
   error + (string \<times> DiagnosisIssue option)" where
  "execute_action L action rule ev =
     (let action_type = dict_get action ''type'' (PStr [])
      in if action_type = PStr ''create_issue'' then
           (case pydantic_str L (dict_get action ''severity'' (PStr (severity rule))) of
              Inl e \<Rightarrow> Inl e
            | Inr sev \<Rightarrow>
           (case pydantic_str L (dict_get action ''message'' (PStr (description rule))) of
              Inl e \<Rightarrow> Inl e
            | Inr msg \<Rightarrow>
           (case pydantic_str L (dict_get action ''recommendation''
                   (PStr (txt_please_check @ category rule @ txt_related_config))) of
              Inl e \<Rightarrow> Inl e
            | Inr reco \<Rightarrow>
                Inr (txt_create_issue @ name rule,
                     Some \<lparr>issue_id = rule_id rule @ ''_'' @ now_stamp L,
                           issue_category = category rule,
                           issue_severity = sev,
                           title = name rule,
                           issue_description = msg,
                           recommendation = reco,
                           issue_confidence = confidence rule,
                           issue_evidence = ev\<rparr>))))
         else if action_type = PStr ''log'' then
           (let message = dict_get action ''message''
                            (PStr (txt_rule @ name rule @ txt_triggered))
            in Inr (txt_log @ py_str L message, None))
         else Inr (txt_unknown_action @ py_str L action_type, None))"

subsection \<open>Rule orchestrator\<close>

text \<open>The loop over \<^verbatim>\<open>rule.actions\<close> in \<^verbatim>\<open>_execute_single_rule\<close>:
  \<open>actions_taken\<close> and \<open>issues_found\<close>; an action that raises ends it.\<close>

fun run_actions ::
  "runtime \<Rightarrow> (string \<times> pyval) list list \<Rightarrow> Rule \<Rightarrow> string list \<Rightarrow>
   error + (string list \<times> DiagnosisIssue list)" where
  "run_actions L [] rule ev = Inr ([], [])"
| "run_actions L (action # rest) rule ev =
     (case execute_action L action rule ev of
        Inl e \<Rightarrow> Inl e
      | Inr (descr, issue) \<Rightarrow>
          (case run_actions L rest rule ev of
             Inl e \<Rightarrow> Inl e
           | Inr (taken, issues) \<Rightarrow>
               Inr (descr # taken, (case issue of None \<Rightarrow> issues | Some i \<Rightarrow> i # issues))))"

text \<open>\<^verbatim>\<open>RuleEngine._execute_single_rule\<close>; its \<^verbatim>\<open>except\<close> logs and re-raises.
  \<open>snapshot_dict\<close> is \<^verbatim>\<open>snapshot.dict()\<close>.\<close>

definition execute_single_rule ::
  "runtime \<Rightarrow> RuleEngineConfiguration \<Rightarrow> Rule \<Rightarrow> pyval \<Rightarrow> error + RuleExecutionResult" where
  "execute_single_rule L cfg rule snapshot_dict =
     (let (m, ev) = check_conditions L (conditions rule) snapshot_dict
      in case (if m then run_actions L (actions rule) rule ev else Inr ([], [])) of
           Inl e \<Rightarrow> Inl e
         | Inr (taken, issues) \<Rightarrow>
             (let confidence0 = (if m then confidence rule else 0);
                  confidence1 =
                    (if m \<and> rule_confidence_threshold cfg < confidence rule
                     then min 1 (confidence0 * 1.1) else confidence0)
              in Inr \<lparr>res_rule_id = rule_id rule,
                      matched = m,
                      res_confidence = confidence1,
                      evidence = ev,
                      actions_taken = taken,
                      issues_found = issues\<rparr>))"

text \<open>\<^verbatim>\<open>RuleEngine.get_all_rules\<close>.\<close>

definition get_all_rules :: "RuleEngine \<Rightarrow> Rule list" where
  "get_all_rules eng =
     filter enabled
       ((if enable_builtin_rules (config eng) then builtin_rules eng else []) @
        (if enable_remote_rules (config eng) then remote_rules eng else []))"

text \<open>The result appended by the \<^verbatim>\<open>except\<close> branch of the loop of
  \<^verbatim>\<open>execute_rules\<close>.\<close>

definition failed_result :: "Rule \<Rightarrow> RuleExecutionResult" where
  "failed_result rule =
     \<lparr>res_rule_id = rule_id rule, matched = False, res_confidence = 0,
      evidence = [], actions_taken = [], issues_found = []\<rparr>"

text \<open>\<^verbatim>\<open>RuleEngine.execute_rules\<close>: the loop over the rules, then the method.\<close>

primrec run_rules ::
  "runtime \<Rightarrow> RuleEngineConfiguration \<Rightarrow> pyval \<Rightarrow> Rule list \<Rightarrow> RuleExecutionResult list" where
  "run_rules L cfg snapshot_dict [] = []"
| "run_rules L cfg snapshot_dict (rule # rest) =
     (case execute_single_rule L cfg rule snapshot_dict of
        Inr result \<Rightarrow> result
      | Inl e \<Rightarrow> failed_result rule) # run_rules L cfg snapshot_dict rest"

definition execute_rules :: "runtime \<Rightarrow> RuleEngine \<Rightarrow> pyval \<Rightarrow> RuleExecutionResult list" where
  "execute_rules L eng snapshot_dict = run_rules L (config eng) snapshot_dict (get_all_rules eng)"

subsection \<open>Loading the cached remote rules\<close>

text \<open>\<^verbatim>\<open>Rule(**rule_data)\<close>: only a mapping can be unpacked into keyword arguments.\<close>

definition Rule_init :: "runtime \<Rightarrow> pyval \<Rightarrow> error + Rule" where
  "Rule_init L rule_data =
     (case rule_data of
        PDict kvs \<Rightarrow> (case validate_rule L kvs of None \<Rightarrow> Inl ValidationError | Some r \<Rightarrow> Inr r)
      | _ \<Rightarrow> Inl TypeError)"

text \<open>The elements a \<^verbatim>\<open>for\<close> loop takes from a value: those of a list, the
  characters of a string, the keys of a dict; anything else is not iterable.\<close>

definition py_iter :: "pyval \<Rightarrow> error + pyval list" where
  "py_iter v =
     (case v of
        PList xs \<Rightarrow> Inr xs
      | PStr s \<Rightarrow> Inr (map (\<lambda>c. PStr [c]) s)
      | PDict kvs \<Rightarrow> Inr (map (\<lambda>kv. PStr (fst kv)) kvs)
      | _ \<Rightarrow> Inl TypeError)"

text \<open>The inner loops of \<^verbatim>\<open>_load_cached_remote_rules\<close>: each record is validated
  and appended to \<open>remote_rules\<close> at once; the first record that raises ends the
  loop with what was appended so far.\<close>

fun append_rules :: "runtime \<Rightarrow> Rule list \<Rightarrow> pyval list \<Rightarrow> Rule list \<times> error option" where
  "append_rules L remote [] = (remote, None)"
| "append_rules L remote (rule_data # rest) =
     (case Rule_init L rule_data of
        Inl e \<Rightarrow> (remote, Some e)
      | Inr rule \<Rightarrow> append_rules L (remote @ [rule]) rest)"

text \<open>One iteration of the loop over the rule files. A file is given by what reading
  and parsing it yields: \<open>Inl e\<close> when \<^verbatim>\<open>open\<close>, \<^verbatim>\<open>json.load\<close> or
  \<^verbatim>\<open>yaml.safe_load\<close> raises, \<open>Inr data\<close> otherwise. The \<^verbatim>\<open>except\<close> of the
  loop body only logs a warning.\<close>

definition load_rule_file :: "runtime \<Rightarrow> Rule list \<Rightarrow> error + pyval \<Rightarrow> Rule list" where
  "load_rule_file L remote file =
     (case file of
        Inl e \<Rightarrow> remote
      | Inr data \<Rightarrow>
          (case data of
             PList xs \<Rightarrow> fst (append_rules L remote xs)
           | PDict kvs \<Rightarrow>
               (case map_of kvs ''rules'' of
                  None \<Rightarrow> remote
                | Some rs \<Rightarrow>
                    (case py_iter rs of
                       Inl e \<Rightarrow> remote
                     | Inr xs \<Rightarrow> fst (append_rules L remote xs)))
           | _ \<Rightarrow> remote))"

text \<open>\<^verbatim>\<open>RuleEngine._load_cached_remote_rules\<close>. \<open>cache\<close> is \<open>None\<close> when the
  directory \<^verbatim>\<open>remote_repo\<close> does not exist, otherwise the rule files found in it, in
  the order in which the loop visits them.\<close>

definition load_cached_remote_rules ::
  "runtime \<Rightarrow> RuleEngine \<Rightarrow> (error + pyval) list option \<Rightarrow> RuleEngine" where
  "load_cached_remote_rules L eng cache =
     (case cache of
        None \<Rightarrow> eng
      | Some rule_files \<Rightarrow> eng\<lparr>remote_rules := foldl (load_rule_file L) [] rule_files\<rparr>)"

subsection \<open>A concrete runtime\<close>

text \<open>A runtime for running the model on examples: strings are not parsed as numbers,
  the mean of a list with floats is taken without rounding (it is exact in double
  arithmetic for the lists of the examples),
  \<^verbatim>\<open>str()\<close> of numbers and containers is left empty, and validation is strict: a
  \<^verbatim>\<open>str\<close> field takes only a string, and \<open>strict_rule\<close> reads class \<^verbatim>\<open>Rule\<close>
  field by field, with its defaults. What it accepts and what it rejects in the
  examples below (a record with every field of the declared type; a record without
  \<^verbatim>\<open>rule_id\<close>) pydantic accepts and rejects too.\<close>

definition field_str :: "(string \<times> pyval) list \<Rightarrow> string \<Rightarrow> string option \<Rightarrow> string option" where
  "field_str kvs k dflt =
     (case map_of kvs k of
        None \<Rightarrow> dflt
      | Some (PStr s) \<Rightarrow> Some s
      | Some v \<Rightarrow> None)"

definition field_dicts :: "(string \<times> pyval) list \<Rightarrow> string \<Rightarrow> (string \<times> pyval) list list option" where
  "field_dicts kvs k =
     (case map_of kvs k of
        Some (PList xs) \<Rightarrow>
          (if list_all is_dict xs
           then Some (map (\<lambda>v. case v of PDict d \<Rightarrow> d | _ \<Rightarrow> []) xs)
           else None)
      | _ \<Rightarrow> None)"

definition field_bool :: "(string \<times> pyval) list \<Rightarrow> string \<Rightarrow> bool \<Rightarrow> bool option" where
  "field_bool kvs k dflt =
     (case map_of kvs k of
        None \<Rightarrow> Some dflt
      | Some (PBool b) \<Rightarrow> Some b
      | Some v \<Rightarrow> None)"

definition field_float :: "(string \<times> pyval) list \<Rightarrow> string \<Rightarrow> real \<Rightarrow> real option" where
  "field_float kvs k dflt =
     (case map_of kvs k of
        None \<Rightarrow> Some dflt
      | Some (PInt n) \<Rightarrow> Some (real_of_int n)
      | Some (PFloat r) \<Rightarrow> Some r
      | Some v \<Rightarrow> None)"

definition strict_rule :: "(string \<times> pyval) list \<Rightarrow> Rule option" where
  "strict_rule kvs =
     (case field_str kvs ''rule_id'' None of None \<Rightarrow> None | Some rid \<Rightarrow>
     (case field_str kvs ''name'' None of None \<Rightarrow> None | Some nm \<Rightarrow>
     (case field_str kvs ''category'' None of None \<Rightarrow> None | Some cat \<Rightarrow>
     (case field_str kvs ''description'' None of None \<Rightarrow> None | Some des \<Rightarrow>
     (case field_str kvs ''severity'' None of None \<Rightarrow> None | Some sev \<Rightarrow>
     (case field_dicts kvs ''conditions'' of None \<Rightarrow> None | Some cs \<Rightarrow>
     (case field_dicts kvs ''actions'' of None \<Rightarrow> None | Some as \<Rightarrow>
     (case field_bool kvs ''enabled'' True of None \<Rightarrow> None | Some en \<Rightarrow>
     (case field_float kvs ''confidence'' 0.8 of None \<Rightarrow> None | Some co \<Rightarrow>
     (case field_str kvs ''version'' (Some ''1.0.0'') of None \<Rightarrow> None | Some ver \<Rightarrow>
     (case field_str kvs ''author'' (Some ''system'') of None \<Rightarrow> None | Some au \<Rightarrow>
        Some \<lparr>rule_id = rid, name = nm, category = cat, description = des, severity = sev,
              conditions = cs, actions = as, enabled = en, confidence = co,
              version = ver, author = au\<rparr>)))))))))))"

definition strict_runtime :: runtime where
  "strict_runtime =
     \<lparr>float_of_str = (\<lambda>s. None),
      float_mean =
        (\<lambda>vs. Some (Finite (sum_list (map (\<lambda>v. case num_of v of None \<Rightarrow> 0 | Some x \<Rightarrow> x) vs) /
                              real (length vs)))),
      repr_of = (\<lambda>v. []),
      coerce_str = (\<lambda>v. None),
      validate_rule = strict_rule,
      now_stamp = ''20240101_000000''\<rparr>"

subsection \<open>Notions of the specification\<close>

text \<open>The operator names of the table in section 4.2 of the specification.\<close>

definition documented_operators :: "string list" where
  "documented_operators =
     [''>'', ''<'', ''>='', ''<='', ''=='', ''!='', ''contains'', ''count'',
      ''all_false'', ''none_true'', ''avg>'']"

text \<open>The present numeric elements of a sequence, in the words of the specification:
  every element that is a number contributes its value, every other element (an absent
  one in particular) is passed over. A \<^verbatim>\<open>bool\<close> is a number here, as it is for
  \<^verbatim>\<open>isinstance(v, (int, float))\<close>.\<close>

primrec present_numbers :: "pyval list \<Rightarrow> real list" where
  "present_numbers [] = []"
| "present_numbers (v # vs) =
     (case num_of v of None \<Rightarrow> present_numbers vs | Some x \<Rightarrow> x # present_numbers vs)"

text \<open>The arithmetic mean of the present numeric elements (of a sequence that has
  one).\<close>

definition exact_mean :: "pyval list \<Rightarrow> real" where
  "exact_mean xs = sum_list (present_numbers xs) / real (length (present_numbers xs))"

subsection \<open>The wildcard path and the rule files, as the specification words them\<close>

text \<open>The sub-path of a wildcard path \<^verbatim>\<open>base[*]rest\<close>: \<open>rest\<close> without its leading
  dot.\<close>

definition sub_path :: "string \<Rightarrow> string" where
  "sub_path rest = (if starts_with rest ''.'' then drop 1 rest else rest)"

text \<open>The rules a list of records contributes: those before the first record that
  class \<^verbatim>\<open>Rule\<close> rejects.\<close>

primrec rules_before_failure :: "runtime \<Rightarrow> pyval list \<Rightarrow> Rule list" where
  "rules_before_failure L [] = []"
| "rules_before_failure L (d # ds) =
     (case Rule_init L d of
        Inl e \<Rightarrow> []
      | Inr rule \<Rightarrow> rule # rules_before_failure L ds)"

subsection \<open>Example data\<close>

text \<open>A record of a rule file with every required field, and the rule it is read as.\<close>

definition sample_record :: "string \<Rightarrow> pyval" where
  "sample_record rid =
     PDict [(''rule_id'', PStr rid), (''name'', PStr ''disk''), (''category'', PStr ''hardware''),
            (''description'', PStr ''disk full''), (''severity'', PStr ''high''),
            (''conditions'', PList []), (''actions'', PList [])]"

definition sample_loaded :: "string \<Rightarrow> Rule" where
  "sample_loaded rid =
     \<lparr>rule_id = rid, name = ''disk'', category = ''hardware'', description = ''disk full'',
      severity = ''high'', conditions = [], actions = [], enabled = True, confidence = 0.8,
      version = ''1.0.0'', author = ''system''\<rparr>"

text \<open>A rule with the one condition \<^verbatim>\<open>cpu.usage > 90\<close>, a snapshot with that
  field, and an engine with the default threshold 0.8 and only built-in rules.\<close>

definition sample_rule :: "string \<Rightarrow> bool \<Rightarrow> real \<Rightarrow> (string \<times> pyval) list list \<Rightarrow> Rule" where
  "sample_rule rid en conf acts =
     \<lparr>rule_id = rid, name = ''cpu'', category = ''hardware'', description = ''high cpu'',
      severity = ''high'',
      conditions = [[(''field'', PStr ''cpu.usage''), (''operator'', PStr ''>''),
                     (''value'', PInt 90)]],
      actions = acts, enabled = en, confidence = conf,
      version = ''1.0.0'', author = ''system''\<rparr>"

definition sample_snapshot :: "int \<Rightarrow> pyval" where
  "sample_snapshot u = PDict [(''cpu'', PDict [(''usage'', PInt u)])]"

definition sample_engine :: "Rule list \<Rightarrow> RuleEngine" where
  "sample_engine rules =
     \<lparr>config = \<lparr>enable_builtin_rules = True, enable_remote_rules = False,
                 remote_rules_url = [], rules_update_interval = 86400,
                 rule_confidence_threshold = 0.8\<rparr>,
      builtin_rules = rules, remote_rules = []\<rparr>"

text \<open>The same engine with another threshold.\<close>

definition sample_engine_at :: "real \<Rightarrow> Rule list \<Rightarrow> RuleEngine" where
  "sample_engine_at threshold rules =
     \<lparr>config = \<lparr>enable_builtin_rules = True, enable_remote_rules = False,
                 remote_rules_url = [], rules_update_interval = 86400,
                 rule_confidence_threshold = threshold\<rparr>,
      builtin_rules = rules, remote_rules = []\<rparr>"

text \<open>An action that creates an issue with a severity that is not a string: the
  constructor of \<^verbatim>\<open>DiagnosisIssue\<close> rejects it.\<close>

definition broken_action :: "(string \<times> pyval) list" where
  "broken_action = [(''type'', PStr ''create_issue''), (''severity'', PList [])]"

subsection \<open>The reported confidence, as the specification words it\<close>

text \<open>Zero for an unmatched rule; for a matched one the base confidence when it does
  not exceed the threshold, and otherwise the base confidence times 1.1, capped at 1.\<close>

definition documented_confidence :: "real \<Rightarrow> real \<Rightarrow> bool \<Rightarrow> real" where
  "documented_confidence threshold base m =
     (if \<not> m then 0
      else if base \<le> threshold then base
      else min 1 (base * 1.1))"


section \<open>Properties of the float conversions\<close>

lemma bit_length_upper: "n < 2 ^ bit_length n"
proof (induction n rule: bit_length.induct)
  case (1 n)
  show ?case
  proof (cases "n = 0")
    case True
    then show ?thesis
      by simp
  next
    case False
    then have "n div 2 < 2 ^ bit_length (n div 2)"
      using 1 by simp
    then have "n < 2 * 2 ^ bit_length (n div 2)"
      by linarith
    then show ?thesis
      using False by (simp add: bit_length.simps [of n])
  qed
qed

lemma bit_length_lower: "0 < n \<Longrightarrow> 2 ^ (bit_length n - 1) \<le> n"
proof (induction n rule: bit_length.induct)
  case (1 n)
  then have n: "n \<noteq> 0"
    by simp
  have len: "bit_length n = Suc (bit_length (n div 2))"
    using n by (simp add: bit_length.simps [of n])
  show ?case
  proof (cases "n div 2 = 0")
    case True
    then show ?thesis
      using n by (simp add: len bit_length.simps [of 0])
  next
    case False
    then have half: "2 ^ (bit_length (n div 2) - 1) \<le> n div 2"
      using 1 n by simp
    have pos: "0 < bit_length (n div 2)"
      using False by (simp add: bit_length.simps [of "n div 2"])
    have "(2::nat) ^ bit_length (n div 2) = 2 * 2 ^ (bit_length (n div 2) - 1)"
      using pos by (cases "bit_length (n div 2)") simp_all
    then have "(2::nat) ^ bit_length (n div 2) \<le> n"
      using half by linarith
    then show ?thesis
      by (simp add: len)
  qed
qed

lemma bit_length_eq:
  assumes "2 ^ k \<le> n" and "n < 2 ^ Suc k"
  shows "bit_length n = Suc k"
proof -
  have pos: "0 < n"
    using assms(1) by (cases "n = 0") simp_all
  have "(2::nat) ^ (bit_length n - 1) < 2 ^ Suc k"
    using bit_length_lower [OF pos] assms(2) by linarith
  then have upper: "bit_length n - 1 < Suc k"
    by (simp only: power_strict_increasing_iff [of 2] one_less_numeral_iff semiring_norm)
  have "(2::nat) ^ k < 2 ^ bit_length n"
    using bit_length_upper [of n] assms(1) by linarith
  then have lower: "k < bit_length n"
    by (simp only: power_strict_increasing_iff [of 2] one_less_numeral_iff semiring_norm)
  show ?thesis
    using upper lower by linarith
qed

lemma bit_length_one: "bit_length (Suc 0) = Suc 0"
  using bit_length_eq [of 0 "Suc 0"] by simp

lemma round_half_even_exact: "0 < b \<Longrightarrow> round_half_even (c * b) b = c"
  by (simp add: round_half_even_def)

text \<open>The division is exact when the quotient is an integer below \<open>2\<^sup>5\<^sup>3\<close> in
  magnitude.\<close>

lemma int_truediv_exact:
  assumes q: "0 < q" and p: "p = m * int q" and m: "\<bar>m\<bar> < 2 ^ 53"
  shows "int_truediv p q = Some (real_of_int m)"
proof (cases "m = 0")
  case True
  then show ?thesis
    using p by (simp add: int_truediv_def)
next
  case False
  define M where "M = nat \<bar>m\<bar>"
  define a where "a = nat \<bar>p\<bar>"
  define d where "d = int (bit_length a) - int (bit_length q)"
  define e where "e = (if q * 2 ^ nat d \<le> a * 2 ^ nat (- d) then d + 1 else d)"
  define s where "s = max (e - 53) (- 1074)"
  have M: "0 < M" "M < 2 ^ 53"
    using False m by (simp_all add: M_def nat_less_iff)
  have a: "a = M * q"
    by (simp add: a_def M_def p abs_mult nat_mult_distrib)
  have p0: "p \<noteq> 0"
    using False q p by simp
  have a_pos: "0 < a"
    using M q by (simp add: a)
  have a_less: "a < 2 ^ 53 * q"
    using M q by (simp add: a)
  have d_le: "d \<le> 53"
  proof (rule ccontr)
    assume "\<not> d \<le> 53"
    then have "bit_length q + 54 \<le> bit_length a"
      by (simp add: d_def)
    then have "bit_length q + 53 \<le> bit_length a - 1"
      by simp
    then have "(2::nat) ^ (bit_length q + 53) \<le> 2 ^ (bit_length a - 1)"
      by (rule power_increasing) simp
    then have "(2::nat) ^ 53 * 2 ^ bit_length q \<le> a"
      using bit_length_lower [OF a_pos] by (simp add: power_add mult.commute)
    moreover have "(2::nat) ^ 53 * q < 2 ^ 53 * 2 ^ bit_length q"
      using bit_length_upper [of q] by simp
    ultimately show False
      using a_less by linarith
  qed
  have e_le: "e \<le> 53"
  proof (cases "d = 53")
    case True
    then have "\<not> q * 2 ^ nat d \<le> a * 2 ^ nat (- d)"
      using a_less by (simp add: mult.commute)
    then show ?thesis
      using True by (simp add: e_def)
  next
    case False
    then show ?thesis
      using d_le by (simp add: e_def)
  qed
  have s: "s \<le> 0" "nat s = 0"
    using e_le by (simp_all add: s_def)
  have mant: "round_half_even (a * 2 ^ nat (- s)) (q * 2 ^ nat s) = M * 2 ^ nat (- s)"
    using round_half_even_exact [OF q, of "M * 2 ^ nat (- s)"] by (simp add: a s ac_simps)
  have v: "real (M * 2 ^ nat (- s) * 2 ^ nat s) / 2 ^ nat (- s) = real M"
    by (simp add: s)
  have small: "\<not> (2::real) ^ 1024 \<le> real M"
  proof -
    have "real M < 2 ^ 53"
      using M(2) by (metis of_nat_less_iff of_nat_numeral of_nat_power)
    moreover have "(2::real) ^ 53 \<le> 2 ^ 1024"
      by (rule power_increasing) simp_all
    ultimately show ?thesis
      by linarith
  qed
  have sign: "(if p < 0 then - real M else real M) = real_of_int m"
    using q p False by (auto simp: M_def mult_less_0_iff zero_less_mult_iff)
  have "int_truediv p q =
      (if 2 ^ 1024 \<le> real (round_half_even (a * 2 ^ nat (- s)) (q * 2 ^ nat s) * 2 ^ nat s) /
            2 ^ nat (- s)
       then None
       else Some (if p < 0
                  then - (real (round_half_even (a * 2 ^ nat (- s)) (q * 2 ^ nat s) * 2 ^ nat s) /
                       2 ^ nat (- s))
                  else real (round_half_even (a * 2 ^ nat (- s)) (q * 2 ^ nat s) * 2 ^ nat s) /
                       2 ^ nat (- s)))"
    using p0 unfolding int_truediv_def Let_def a_def [symmetric] d_def [symmetric]
      e_def [symmetric] s_def [symmetric]
    by simp
  then show ?thesis
    unfolding mant v using small sign by simp
qed

lemma py_float_small_int:
  "\<bar>n\<bar> < 2 ^ 53 \<Longrightarrow> py_float L (PInt n) = Inr (Finite (real_of_int n))"
  using int_truediv_exact [of 1 n n] by (simp add: py_float_def)

section \<open>Properties of the condition evaluator\<close>

lemma numeric_values_present:
  "map (\<lambda>v. case num_of v of None \<Rightarrow> 0 | Some x \<Rightarrow> x) (numeric_values xs) = present_numbers xs"
  by (induction xs) (auto simp: numeric_values_def is_number_def)

lemma numeric_values_length: "length (numeric_values xs) = length (present_numbers xs)"
  using numeric_values_present [of xs] by (metis length_map)

lemma numeric_values_empty: "(numeric_values xs = []) = (present_numbers xs = [])"
  using numeric_values_length [of xs] by (metis length_0_conv)

lemma integer_sum_present:
  "list_all is_int (numeric_values xs) \<Longrightarrow>
   real_of_int (sum_list (map (\<lambda>v. case int_of v of None \<Rightarrow> 0 | Some n \<Rightarrow> n)
                   (numeric_values xs))) = sum_list (present_numbers xs)"
proof (induction xs)
  case Nil
  show ?case
    by (simp add: numeric_values_def)
next
  case (Cons x xs)
  then show ?case
    by (cases x) (simp_all add: numeric_values_def is_number_def is_int_def)
qed

lemma integer_mean_exact:
  assumes "present_numbers xs \<noteq> []" and "list_all is_int (numeric_values xs)"
    and "exact_mean xs = real_of_int m" and "\<bar>m\<bar> < 2 ^ 53"
  shows "py_mean L (numeric_values xs) = Inr (Finite (exact_mean xs))"
proof -
  let ?S = "sum_list (map (\<lambda>v. case int_of v of None \<Rightarrow> 0 | Some n \<Rightarrow> n) (numeric_values xs))"
  let ?n = "length (numeric_values xs)"
  have n: "0 < ?n"
    using assms(1) by (simp add: numeric_values_length)
  have "real_of_int ?S / real ?n = real_of_int m"
    using assms(3) integer_sum_present [OF assms(2)]
    by (simp add: exact_mean_def numeric_values_length)
  then have "real_of_int ?S = real_of_int (m * int ?n)"
    using n by (simp add: field_simps)
  then have "?S = m * int ?n"
    by (simp only: of_int_eq_iff)
  then have "int_truediv ?S ?n = Some (real_of_int m)"
    using int_truediv_exact [OF n _ assms(4)] by simp
  then show ?thesis
    using n assms(2,3) by (simp add: py_mean_def)
qed

lemma evaluate_count:
  "evaluate_condition_body L fv (PStr ''count'') tv fc =
     (case fv of PList xs \<Rightarrow> num_gt (real (length xs)) tv | _ \<Rightarrow> Inr False)"
  by (simp add: evaluate_condition_body_def)

lemma evaluate_avg:
  "evaluate_condition_body L (PList xs) (PStr ''avg>'') tv fc = avg_gt L xs tv"
  by (simp add: evaluate_condition_body_def)

lemma evaluate_all_false:
  "k \<noteq> [] \<Longrightarrow> evaluate_condition_body L fv (PStr ''all_false'') tv (PStr k) =
     (case fv of PList xs \<Rightarrow> all_not_get xs (PStr k) | _ \<Rightarrow> Inr False)"
  by (simp add: evaluate_condition_body_def)

lemma evaluate_none_true:
  "k \<noteq> [] \<Longrightarrow> evaluate_condition_body L fv (PStr ''none_true'') tv (PStr k) =
     (case fv of
        PList xs \<Rightarrow> (case any_get xs (PStr k) of Inl e \<Rightarrow> Inl e | Inr b \<Rightarrow> Inr (\<not> b))
      | _ \<Rightarrow> Inr False)"
  by (simp add: evaluate_condition_body_def)

lemma all_not_get_dicts:
  "list_all is_dict items \<Longrightarrow>
   all_not_get items (PStr k) =
     Inr (\<forall>kvs. PDict kvs \<in> set items \<longrightarrow> (\<exists>v. map_of kvs k = Some v \<and> \<not> py_truthy v))"
proof (induction items)
  case Nil
  then show ?case by simp
next
  case (Cons item rest)
  then obtain kvs where item: "item = PDict kvs"
    by (cases item) auto
  show ?case
    using Cons by (cases "map_of kvs k") (auto simp: item item_get_def)
qed

lemma any_get_dicts:
  "list_all is_dict items \<Longrightarrow>
   any_get items (PStr k) =
     Inr (\<exists>kvs v. PDict kvs \<in> set items \<and> map_of kvs k = Some v \<and> py_truthy v)"
proof (induction items)
  case Nil
  then show ?case by simp
next
  case (Cons item rest)
  then obtain kvs where item: "item = PDict kvs"
    by (cases item) auto
  show ?case
    using Cons by (cases "map_of kvs k") (auto simp: item item_get_def)
qed

text \<open>
  An absent field value is unmatched for \<^verbatim>\<open>>\<close>, \<^verbatim>\<open><\<close> and \<^verbatim>\<open>avg>\<close>, for
  \<^verbatim>\<open>==\<close> with a target other than \<^verbatim>\<open>None\<close>, and for \<^verbatim>\<open>contains\<close> with a
  target that is not a string or is not part of the text \<^verbatim>\<open>None\<close>.
\<close>

lemma absent_unmatched:
  "\<not> evaluate_condition L PNone (PStr ''>'') tv fc"
  "\<not> evaluate_condition L PNone (PStr ''<'') tv fc"
  "tv \<noteq> PNone \<Longrightarrow> \<not> evaluate_condition L PNone (PStr ''=='') tv fc"
  "\<not> evaluate_condition L PNone (PStr ''avg>'') tv fc"
  "\<not> is_substring t ''None'' \<Longrightarrow> \<not> evaluate_condition L PNone (PStr ''contains'') (PStr t) fc"
  "\<forall>t. tv \<noteq> PStr t \<Longrightarrow> \<not> evaluate_condition L PNone (PStr ''contains'') tv fc"
  by (auto simp: evaluate_condition_def evaluate_condition_body_def float_compare_def
      py_float_def str_contains_def py_str_def split: pyval.splits)

text \<open>
  Claim C2 (the code departs from it): a condition whose field is absent is to be
  unmatched for \<^verbatim>\<open>contains\<close>. The source tests the target against
  \<^verbatim>\<open>str(field_value)\<close>, and \<^verbatim>\<open>str(None)\<close> is the text \<^verbatim>\<open>None\<close>: with the target
  \<^verbatim>\<open>on\<close> the evaluator matches an absent field value, for every runtime and
  \<^verbatim>\<open>field_check\<close>, and so does the condition
  \<^verbatim>\<open>service.state contains on\<close> on a snapshot without that field.
\<close>

theorem absent_contains_matches:
  "evaluate_condition L PNone (PStr ''contains'') (PStr ''on'') fc \<and>
   get_field_value (PDict []) (PStr ''service.state'') = PNone \<and>
   fst (check_condition L
          [(''field'', PStr ''service.state''), (''operator'', PStr ''contains''),
           (''value'', PStr ''on'')]
          (PDict []))"
proof -
  have m: "evaluate_condition L PNone (PStr ''contains'') (PStr ''on'') fc" for fc
    by (simp add: evaluate_condition_def evaluate_condition_body_def str_contains_def py_str_def
        starts_with_def)
  have v: "get_field_value (PDict []) (PStr ''service.state'') = PNone"
    by (simp add: get_field_value_def get_field_value_body_def starts_with_def
        get_nested_value_def)
  have "fst (check_condition L
          [(''field'', PStr ''service.state''), (''operator'', PStr ''contains''),
           (''value'', PStr ''on'')]
          (PDict []))"
    by (simp add: check_condition_def dict_get_def v m Let_def)
  then show ?thesis
    using m v by simp
qed

text \<open>
  Claim C6: for a numeric target, the operator \<^verbatim>\<open>count\<close> matches exactly when the
  field value is a sequence whose length is strictly greater than the target; a field
  value that is not a sequence never matches.
\<close>

theorem count_matches_iff_longer:
  "num_of tv = Some t \<Longrightarrow>
   evaluate_condition L fv (PStr ''count'') tv fc = (\<exists>xs. fv = PList xs \<and> t < real (length xs))"
  by (cases fv) (simp_all add: evaluate_condition_def evaluate_count num_gt_def)

text \<open>The boundary of C6: a sequence of length 200 is unmatched for the target 200 and
  matched for the target 199; a mapping is unmatched.\<close>

theorem count_matches_iff_longer_witness:
  "num_of (PInt 200) = Some 200 \<and> num_of (PInt 199) = Some 199 \<and>
   \<not> evaluate_condition strict_runtime (PList (replicate 200 PNone)) (PStr ''count'') (PInt 200) PNone \<and>
   evaluate_condition strict_runtime (PList (replicate 200 PNone)) (PStr ''count'') (PInt 199) PNone \<and>
   \<not> evaluate_condition strict_runtime (PDict []) (PStr ''count'') (PInt 199) PNone"
  using count_matches_iff_longer [of "PInt 200" 200 strict_runtime "PList (replicate 200 PNone)" PNone]
    count_matches_iff_longer [of "PInt 199" 199 strict_runtime "PList (replicate 200 PNone)" PNone]
    count_matches_iff_longer [of "PInt 199" 199 strict_runtime "PDict []" PNone]
  by simp

text \<open>
  Claim C7: on a sequence of mappings and with a non-empty \<^verbatim>\<open>field_check\<close> name \<open>k\<close>,
  \<^verbatim>\<open>all_false\<close> matches exactly when every element has the key \<open>k\<close> with a falsy
  value (an element without the key counts as truthy and prevents the match), and
  \<^verbatim>\<open>none_true\<close> matches exactly when no element has the key \<open>k\<close> with a truthy value;
  on a field value that is not a sequence neither operator matches.
\<close>

theorem all_false_none_true_on_mappings:
  assumes "list_all is_dict items" and "k \<noteq> []"
  shows "evaluate_condition L (PList items) (PStr ''all_false'') tv (PStr k) =
           (\<forall>kvs. PDict kvs \<in> set items \<longrightarrow> (\<exists>v. map_of kvs k = Some v \<and> \<not> py_truthy v)) \<and>
         evaluate_condition L (PList items) (PStr ''none_true'') tv (PStr k) =
           (\<not> (\<exists>kvs v. PDict kvs \<in> set items \<and> map_of kvs k = Some v \<and> py_truthy v)) \<and>
         (\<not> is_list fv \<longrightarrow>
            \<not> evaluate_condition L fv (PStr ''all_false'') tv (PStr k) \<and>
            \<not> evaluate_condition L fv (PStr ''none_true'') tv (PStr k))"
proof -
  have "\<not> evaluate_condition L fv (PStr ''all_false'') tv (PStr k) \<and>
        \<not> evaluate_condition L fv (PStr ''none_true'') tv (PStr k)" if "\<not> is_list fv"
    using that assms(2)
    by (cases fv) (simp_all add: evaluate_condition_def evaluate_all_false evaluate_none_true)
  then show ?thesis
    using assms
    by (simp add: evaluate_condition_def evaluate_all_false evaluate_none_true
        all_not_get_dicts any_get_dicts)
qed

text \<open>C7 on examples: two unreachable hosts match \<^verbatim>\<open>all_false\<close>; an element without
  the key prevents the match of \<^verbatim>\<open>all_false\<close> but not of \<^verbatim>\<open>none_true\<close>; one
  truthy value prevents the match of \<^verbatim>\<open>none_true\<close>; a string matches neither.\<close>

theorem all_false_none_true_on_mappings_witness:
  "list_all is_dict [PDict [(''is_reachable'', PBool False)], PDict [(''is_reachable'', PBool False)]] \<and>
   ''is_reachable'' \<noteq> [] \<and>
   evaluate_condition strict_runtime
     (PList [PDict [(''is_reachable'', PBool False)], PDict [(''is_reachable'', PBool False)]])
     (PStr ''all_false'') PNone (PStr ''is_reachable'') \<and>
   \<not> evaluate_condition strict_runtime
     (PList [PDict [(''is_reachable'', PBool False)], PDict [(''host'', PStr ''a'')]])
     (PStr ''all_false'') PNone (PStr ''is_reachable'') \<and>
   evaluate_condition strict_runtime
     (PList [PDict [(''is_reachable'', PBool False)], PDict [(''host'', PStr ''a'')]])
     (PStr ''none_true'') PNone (PStr ''is_reachable'') \<and>
   \<not> evaluate_condition strict_runtime
     (PList [PDict [(''is_up'', PBool False)], PDict [(''is_up'', PBool True)]])
     (PStr ''none_true'') PNone (PStr ''is_up'') \<and>
   \<not> is_list (PStr ''abc'') \<and>
   \<not> evaluate_condition strict_runtime (PStr ''abc'') (PStr ''all_false'') PNone (PStr ''is_up'') \<and>
   \<not> evaluate_condition strict_runtime (PStr ''abc'') (PStr ''none_true'') PNone (PStr ''is_up'')"
proof -
  have k: "''is_reachable'' \<noteq> []" "''is_up'' \<noteq> []"
    by simp_all
  have d1: "list_all is_dict [PDict [(''is_reachable'', PBool False)], PDict [(''is_reachable'', PBool False)]]"
    by simp
  have d2: "list_all is_dict [PDict [(''is_reachable'', PBool False)], PDict [(''host'', PStr ''a'')]]"
    by simp
  have d3: "list_all is_dict [PDict [(''is_up'', PBool False)], PDict [(''is_up'', PBool True)]]"
    by simp
  have a: "evaluate_condition strict_runtime
     (PList [PDict [(''is_reachable'', PBool False)], PDict [(''is_reachable'', PBool False)]])
     (PStr ''all_false'') PNone (PStr ''is_reachable'')"
    using all_false_none_true_on_mappings [OF d1 k(1), of strict_runtime PNone "PStr ''abc''"]
    by simp
  have b: "\<not> evaluate_condition strict_runtime
     (PList [PDict [(''is_reachable'', PBool False)], PDict [(''host'', PStr ''a'')]])
     (PStr ''all_false'') PNone (PStr ''is_reachable'') \<and>
   evaluate_condition strict_runtime
     (PList [PDict [(''is_reachable'', PBool False)], PDict [(''host'', PStr ''a'')]])
     (PStr ''none_true'') PNone (PStr ''is_reachable'')"
    using all_false_none_true_on_mappings [OF d2 k(1), of strict_runtime PNone "PStr ''abc''"]
    by auto
  have c: "\<not> evaluate_condition strict_runtime
     (PList [PDict [(''is_up'', PBool False)], PDict [(''is_up'', PBool True)]])
     (PStr ''none_true'') PNone (PStr ''is_up'') \<and>
   \<not> evaluate_condition strict_runtime (PStr ''abc'') (PStr ''all_false'') PNone (PStr ''is_up'') \<and>
   \<not> evaluate_condition strict_runtime (PStr ''abc'') (PStr ''none_true'') PNone (PStr ''is_up'')"
    using all_false_none_true_on_mappings [OF d3 k(2), of strict_runtime PNone "PStr ''abc''"]
    by auto
  show ?thesis
    using k d1 a b c by simp
qed

text \<open>
  Claim C8, amended: for a numeric target \<open>t\<close>, \<^verbatim>\<open>avg>\<close> on a sequence matches exactly
  when the sequence has present numeric elements and their mean as the interpreter
  computes it (\<^verbatim>\<open>sum(...) / len(...)\<close>, a double, or an \<^verbatim>\<open>OverflowError\<close>) is
  strictly greater than \<open>t\<close>. Whenever that computation is exact, this is the
  arithmetic mean of the present numeric elements; it is exact in particular when those
  elements are all integers and their mean is an integer below \<open>2 ^ 53\<close> in magnitude. A
  sequence that is empty or holds only absent elements never matches, whatever the
  target is.
\<close>

theorem avg_gt_compares_computed_mean:
  "(num_of tv = Some t \<longrightarrow>
      evaluate_condition L (PList xs) (PStr ''avg>'') tv fc =
        (present_numbers xs \<noteq> [] \<and>
         (\<exists>a. py_mean L (numeric_values xs) = Inr a \<and> pyfloat_less (Finite t) a))) \<and>
   (num_of tv = Some t \<and> present_numbers xs \<noteq> [] \<and>
    py_mean L (numeric_values xs) = Inr (Finite (exact_mean xs)) \<longrightarrow>
      evaluate_condition L (PList xs) (PStr ''avg>'') tv fc = (t < exact_mean xs)) \<and>
   (present_numbers xs \<noteq> [] \<and> list_all is_int (numeric_values xs) \<and>
    exact_mean xs = real_of_int m \<and> \<bar>m\<bar> < 2 ^ 53 \<longrightarrow>
      py_mean L (numeric_values xs) = Inr (Finite (exact_mean xs))) \<and>
   (set xs \<subseteq> {PNone} \<longrightarrow> \<not> evaluate_condition L (PList xs) (PStr ''avg>'') tv fc)"
proof -
  have computed: "evaluate_condition L (PList xs) (PStr ''avg>'') tv fc =
      (present_numbers xs \<noteq> [] \<and>
       (\<exists>a. py_mean L (numeric_values xs) = Inr a \<and> pyfloat_less (Finite t) a))"
    if "num_of tv = Some t"
    using that
    by (cases "py_mean L (numeric_values xs)")
      (simp_all add: evaluate_condition_def evaluate_avg avg_gt_def float_gt_def
        numeric_values_empty Let_def)
  have exact: "evaluate_condition L (PList xs) (PStr ''avg>'') tv fc = (t < exact_mean xs)"
    if "num_of tv = Some t" "present_numbers xs \<noteq> []"
      "py_mean L (numeric_values xs) = Inr (Finite (exact_mean xs))"
    using computed [OF that(1)] that(2,3) by simp
  have none: "present_numbers xs = []" if "set xs \<subseteq> {PNone}"
    using that by (induction xs) auto
  have absent: "\<not> evaluate_condition L (PList xs) (PStr ''avg>'') tv fc"
    if "set xs \<subseteq> {PNone}"
    using none [OF that]
    by (simp add: evaluate_condition_def evaluate_avg avg_gt_def numeric_values_empty Let_def)
  show ?thesis
    using computed exact absent integer_mean_exact [of xs m L] by blast
qed

text \<open>C8 on examples: the integers 250, absent, 300 against 200 match (their mean 275
  is computed exactly); 100, absent, 300 do not (mean 200); with a float, 250.5, absent,
  300 match (mean 275.25, exact in double arithmetic); all-absent and empty sequences do
  not match even the target \<open>-5\<close>.\<close>

theorem avg_gt_compares_computed_mean_witness:
  "num_of (PInt 200) = Some 200 \<and>
   present_numbers [PInt 250, PNone, PInt 300] \<noteq> [] \<and>
   list_all is_int (numeric_values [PInt 250, PNone, PInt 300]) \<and>
   exact_mean [PInt 250, PNone, PInt 300] = real_of_int 275 \<and> \<bar>275 :: int\<bar> < 2 ^ 53 \<and>
   evaluate_condition strict_runtime (PList [PInt 250, PNone, PInt 300]) (PStr ''avg>'') (PInt 200) PNone \<and>
   exact_mean [PInt 100, PNone, PInt 300] = real_of_int 200 \<and>
   \<not> evaluate_condition strict_runtime (PList [PInt 100, PNone, PInt 300]) (PStr ''avg>'') (PInt 200) PNone \<and>
   py_mean strict_runtime (numeric_values [PFloat 250.5, PNone, PInt 300]) =
     Inr (Finite (exact_mean [PFloat 250.5, PNone, PInt 300])) \<and>
   evaluate_condition strict_runtime (PList [PFloat 250.5, PNone, PInt 300]) (PStr ''avg>'') (PInt 200) PNone \<and>
   set [PNone, PNone] \<subseteq> {PNone} \<and>
   \<not> evaluate_condition strict_runtime (PList [PNone, PNone]) (PStr ''avg>'') (PInt (- 5)) PNone \<and>
   \<not> evaluate_condition strict_runtime (PList []) (PStr ''avg>'') (PInt (- 5)) PNone"
proof -
  have t: "num_of (PInt 200) = Some 200" "num_of (PInt (- 5)) = Some (- 5)"
    by simp_all
  have ints: "list_all is_int (numeric_values [PInt 250, PNone, PInt 300])"
    "list_all is_int (numeric_values [PInt 100, PNone, PInt 300])"
    by (simp_all add: numeric_values_def is_number_def is_int_def)
  have means: "exact_mean [PInt 250, PNone, PInt 300] = real_of_int 275"
    "exact_mean [PInt 100, PNone, PInt 300] = real_of_int 200"
    "exact_mean [PFloat 250.5, PNone, PInt 300] = 275.25"
    by (simp_all add: exact_mean_def)
  have small: "\<bar>275 :: int\<bar> < 2 ^ 53" "\<bar>200 :: int\<bar> < 2 ^ 53"
    by simp_all
  have present: "present_numbers [PInt 250, PNone, PInt 300] \<noteq> []"
    "present_numbers [PInt 100, PNone, PInt 300] \<noteq> []"
    "present_numbers [PFloat 250.5, PNone, PInt 300] \<noteq> []"
    by simp_all
  have floats: "py_mean strict_runtime (numeric_values [PFloat 250.5, PNone, PInt 300]) =
      Inr (Finite (exact_mean [PFloat 250.5, PNone, PInt 300]))"
    by (simp add: exact_mean_def py_mean_def numeric_values_def is_number_def is_int_def
        strict_runtime_def)
  have a: "evaluate_condition strict_runtime (PList [PInt 250, PNone, PInt 300])
      (PStr ''avg>'') (PInt 200) PNone"
    using avg_gt_compares_computed_mean [of "PInt 200" 200 strict_runtime
        "[PInt 250, PNone, PInt 300]" PNone 275]
      t(1) present(1) ints(1) means(1) small(1)
    by simp
  have b: "\<not> evaluate_condition strict_runtime (PList [PInt 100, PNone, PInt 300])
      (PStr ''avg>'') (PInt 200) PNone"
    using avg_gt_compares_computed_mean [of "PInt 200" 200 strict_runtime
        "[PInt 100, PNone, PInt 300]" PNone 200]
      t(1) present(2) ints(2) means(2) small(2)
    by simp
  have c: "evaluate_condition strict_runtime (PList [PFloat 250.5, PNone, PInt 300])
      (PStr ''avg>'') (PInt 200) PNone"
    using avg_gt_compares_computed_mean [of "PInt 200" 200 strict_runtime
        "[PFloat 250.5, PNone, PInt 300]" PNone 0]
      t(1) present(3) floats means(3)
    by simp
  have d: "\<not> evaluate_condition strict_runtime (PList [PNone, PNone]) (PStr ''avg>'')
      (PInt (- 5)) PNone"
    using avg_gt_compares_computed_mean [of "PInt (- 5)" "- 5" strict_runtime
        "[PNone, PNone]" PNone 0]
    by simp
  have e: "\<not> evaluate_condition strict_runtime (PList []) (PStr ''avg>'') (PInt (- 5)) PNone"
    using avg_gt_compares_computed_mean [of "PInt (- 5)" "- 5" strict_runtime "[]" PNone 0]
    by simp
  show ?thesis
    using t(1) present(1) ints(1) means(1,2) small(1) floats a b c d e by simp
qed

text \<open>
  Claim C8 as stated fails where the double arithmetic is not exact. The one element
  \<open>2 ^ 53 + 1\<close> has the arithmetic mean \<open>2 ^ 53 + 1\<close>, greater than the target
  \<open>2 ^ 53\<close>, but the division rounds it to \<open>2 ^ 53\<close> and the condition is unmatched.
\<close>

theorem avg_gt_rounded_mean_counterexample:
  "num_of (PInt 9007199254740992) = Some 9007199254740992 \<and>
   present_numbers [PInt 9007199254740993] \<noteq> [] \<and>
   9007199254740992 < exact_mean [PInt 9007199254740993] \<and>
   py_mean strict_runtime (numeric_values [PInt 9007199254740993]) =
     Inr (Finite 9007199254740992) \<and>
   \<not> evaluate_condition strict_runtime (PList [PInt 9007199254740993]) (PStr ''avg>'')
       (PInt 9007199254740992) PNone"
proof -
  have bits: "bit_length 9007199254740993 = 54"
    using bit_length_eq [of 53 9007199254740993] by simp
  have rounded: "int_truediv 9007199254740993 1 = Some 9007199254740992"
    by (simp add: int_truediv_def bit_length_one bits round_half_even_def Let_def)
  have mean: "py_mean strict_runtime (numeric_values [PInt 9007199254740993]) =
      Inr (Finite 9007199254740992)"
    using rounded by (simp add: py_mean_def numeric_values_def is_number_def is_int_def)
  have unmatched: "\<not> evaluate_condition strict_runtime (PList [PInt 9007199254740993])
      (PStr ''avg>'') (PInt 9007199254740992) PNone"
    using mean by (simp add: evaluate_condition_def evaluate_avg avg_gt_def float_gt_def Let_def)
  have exact: "9007199254740992 < exact_mean [PInt 9007199254740993]"
    by (simp add: exact_mean_def)
  show ?thesis
    using mean unmatched exact by simp
qed

text \<open>
  Claim C9: the evaluator returns a boolean for every field value, operator, target and
  \<^verbatim>\<open>field_check\<close>: it matches exactly when the body of its \<^verbatim>\<open>try\<close> returns
  \<^verbatim>\<open>True\<close>, so an exception raised inside yields unmatched, and an operator outside the
  documented set yields unmatched.
\<close>

theorem evaluate_condition_total:
  "evaluate_condition L fv operator tv fc =
     (evaluate_condition_body L fv operator tv fc = Inr True) \<and>
   (\<forall>e. evaluate_condition_body L fv operator tv fc = Inl e \<longrightarrow>
        \<not> evaluate_condition L fv operator tv fc) \<and>
   (operator \<notin> PStr ` set documented_operators \<longrightarrow> \<not> evaluate_condition L fv operator tv fc)"
proof -
  have matched: "evaluate_condition L fv operator tv fc =
      (evaluate_condition_body L fv operator tv fc = Inr True)"
    by (cases "evaluate_condition_body L fv operator tv fc") (simp_all add: evaluate_condition_def)
  have unknown: "evaluate_condition_body L fv operator tv fc = Inr False"
    if "operator \<notin> PStr ` set documented_operators"
    using that by (simp add: evaluate_condition_body_def documented_operators_def)
  show ?thesis
    using matched unknown by auto
qed

text \<open>C9 on examples: \<^verbatim>\<open>float(None)\<close> raises inside the evaluation of \<^verbatim>\<open>>\<close>, and
  \<^verbatim>\<open>matches\<close> is not an operator; both conditions are unmatched.\<close>

theorem evaluate_condition_total_witness:
  "evaluate_condition_body strict_runtime PNone (PStr ''>'') (PInt 90) PNone = Inl TypeError \<and>
   \<not> evaluate_condition strict_runtime PNone (PStr ''>'') (PInt 90) PNone \<and>
   PStr ''matches'' \<notin> PStr ` set documented_operators \<and>
   \<not> evaluate_condition strict_runtime (PStr ''abc'') (PStr ''matches'') (PStr ''a'') PNone"
proof -
  have b: "evaluate_condition_body strict_runtime PNone (PStr ''>'') (PInt 90) PNone = Inl TypeError"
    by (simp add: evaluate_condition_body_def float_compare_def py_float_def)
  have u: "PStr ''matches'' \<notin> PStr ` set documented_operators"
    by (simp add: documented_operators_def)
  show ?thesis
    using b u
      evaluate_condition_total [of strict_runtime PNone "PStr ''>''" "PInt 90" PNone]
      evaluate_condition_total [of strict_runtime "PStr ''abc''" "PStr ''matches''" "PStr ''a''" PNone]
    by blast
qed

text \<open>
  Claim C10: with \<^verbatim>\<open>field_check\<close> omitted (\<^verbatim>\<open>None\<close> or the empty string) the
  operators \<^verbatim>\<open>all_false\<close> and \<^verbatim>\<open>none_true\<close> fall through to the last branch and
  are unmatched, whatever the field value and the target are.
\<close>

theorem field_check_omitted_never_matches:
  "operator = PStr ''all_false'' \<or> operator = PStr ''none_true'' \<Longrightarrow>
   fc = PNone \<or> fc = PStr [] \<Longrightarrow>
   evaluate_condition_body L fv operator tv fc = Inr False \<and>
   \<not> evaluate_condition L fv operator tv fc"
proof -
  assume op: "operator = PStr ''all_false'' \<or> operator = PStr ''none_true''"
  assume "fc = PNone \<or> fc = PStr []"
  then have falsy: "\<not> py_truthy fc"
    by auto
  have "evaluate_condition_body L fv (PStr ''all_false'') tv fc = Inr False"
    using falsy by (simp add: evaluate_condition_body_def)
  moreover have "evaluate_condition_body L fv (PStr ''none_true'') tv fc = Inr False"
    using falsy by (simp add: evaluate_condition_body_def)
  ultimately have "evaluate_condition_body L fv operator tv fc = Inr False"
    using op by auto
  then show ?thesis
    by (simp add: evaluate_condition_def)
qed

text \<open>C10 on an example: the one element of the sequence has \<^verbatim>\<open>is_up\<close> false, so
  \<^verbatim>\<open>all_false\<close> matches with the \<^verbatim>\<open>field_check\<close> and does not without it.\<close>

theorem field_check_omitted_never_matches_witness:
  "\<not> evaluate_condition strict_runtime (PList [PDict [(''is_up'', PBool False)]])
       (PStr ''all_false'') PNone PNone \<and>
   \<not> evaluate_condition strict_runtime (PList [PDict [(''is_up'', PBool False)]])
       (PStr ''none_true'') PNone (PStr []) \<and>
   evaluate_condition strict_runtime (PList [PDict [(''is_up'', PBool False)]])
       (PStr ''all_false'') PNone (PStr ''is_up'')"
proof -
  have "evaluate_condition strict_runtime (PList [PDict [(''is_up'', PBool False)]])
       (PStr ''all_false'') PNone (PStr ''is_up'')"
    by (simp add: evaluate_condition_def evaluate_all_false item_get_def)
  then show ?thesis
    using field_check_omitted_never_matches [of "PStr ''all_false''" PNone strict_runtime
        "PList [PDict [(''is_up'', PBool False)]]" PNone]
      field_check_omitted_never_matches [of "PStr ''none_true''" "PStr []" strict_runtime
        "PList [PDict [(''is_up'', PBool False)]]" PNone]
    by simp
qed

section \<open>Properties of the field resolver\<close>

lemma marker_is_substring: "is_substring ''[*]'' (base @ ''[*]'' @ rest)"
  by (induction base) (simp_all add: starts_with_def)

lemma split_once_marker:
  "\<not> is_substring ''[*]'' base \<Longrightarrow> split_once ''[*]'' (base @ ''[*]'' @ rest) = [base, rest]"
proof (induction base)
  case Nil
  show ?case
    by (simp add: starts_with_def)
next
  case (Cons c cs)
  from Cons.prems have here: "\<not> starts_with (c # cs) ''[*]''"
    and later: "\<not> is_substring ''[*]'' cs"
    by simp_all
  have "\<not> starts_with ((c # cs) @ ''[*]'' @ rest) ''[*]''"
  proof (cases cs)
    case Nil
    then show ?thesis
      by (simp add: starts_with_def)
  next
    case (Cons d ds)
    then show ?thesis
      using here by (cases ds) (auto simp: starts_with_def)
  qed
  then show ?case
    using Cons.IH [OF later] by simp
qed

lemma split_char_no_dot: "CHR ''.'' \<notin> set k \<Longrightarrow> split_char CHR ''.'' k = [k]"
  by (induction k) auto

lemma get_nested_value_key:
  "CHR ''.'' \<notin> set k \<Longrightarrow>
   get_nested_value (PDict kvs) k = (case map_of kvs k of None \<Rightarrow> PNone | Some v \<Rightarrow> v)"
  by (simp add: get_nested_value_def split_char_no_dot split: option.splits)

lemma get_field_value_marked:
  assumes "is_substring ''[*]'' p" and "split_once ''[*]'' p = [base, rest]"
  shows "get_field_value data (PStr p) =
           (case get_nested_value data base of
              PList items \<Rightarrow>
                if sub_path rest = [] then PList items
                else PList (map (\<lambda>item. get_nested_value item (sub_path rest))
                              (filter is_dict items))
            | _ \<Rightarrow> PList [])"
  by (simp add: get_field_value_def get_field_value_body_def assms sub_path_def Let_def
      split: pyval.splits)

lemma get_field_value_wildcard:
  assumes "\<not> is_substring ''[*]'' base"
  shows "get_field_value data (PStr (base @ ''[*]'' @ rest)) =
           (case get_nested_value data base of
              PList items \<Rightarrow>
                if sub_path rest = [] then PList items
                else PList (map (\<lambda>item. get_nested_value item (sub_path rest))
                              (filter is_dict items))
            | _ \<Rightarrow> PList [])"
  by (rule get_field_value_marked [OF marker_is_substring split_once_marker [OF assms]])

text \<open>
  Claim C3, amended: for a path \<^verbatim>\<open>base[*]rest\<close> whose first marker follows \<open>base\<close>,
  with \<open>sub_path rest\<close> the text \<open>rest\<close> without its leading dot:
  \<^item> if \<open>base\<close> does not resolve to a sequence, the result is the empty sequence;
  \<^item> if it resolves to a sequence and the sub-path is empty, the result is that
    sequence as it is, whatever its elements are;
  \<^item> otherwise the sub-path is resolved against every element that is a mapping, in
    input order, and elements that are not mappings are left out;
  \<^item> so on a sequence of mappings the result has one entry per element, at the
    element's position;
  \<^item> a mapping without the key of a one-key sub-path contributes \<^verbatim>\<open>None\<close>, one with
    the key its value.
\<close>

theorem wildcard_resolution:
  assumes "\<not> is_substring ''[*]'' base"
  shows "(\<not> is_list (get_nested_value data base) \<longrightarrow>
            get_field_value data (PStr (base @ ''[*]'' @ rest)) = PList []) \<and>
         (get_nested_value data base = PList items \<and> sub_path rest = [] \<longrightarrow>
            get_field_value data (PStr (base @ ''[*]'' @ rest)) = PList items) \<and>
         (get_nested_value data base = PList items \<and> sub_path rest \<noteq> [] \<longrightarrow>
            get_field_value data (PStr (base @ ''[*]'' @ rest)) =
              PList (map (\<lambda>item. get_nested_value item (sub_path rest)) (filter is_dict items))) \<and>
         (get_nested_value data base = PList items \<and> sub_path rest \<noteq> [] \<and>
          list_all is_dict items \<longrightarrow>
            (\<exists>ys. get_field_value data (PStr (base @ ''[*]'' @ rest)) = PList ys \<and>
                  length ys = length items \<and>
                  (\<forall>i < length items. ys ! i = get_nested_value (items ! i) (sub_path rest)))) \<and>
         (CHR ''.'' \<notin> set k \<longrightarrow>
            get_nested_value (PDict kvs) k = (case map_of kvs k of None \<Rightarrow> PNone | Some v \<Rightarrow> v))"
proof -
  note resolve = get_field_value_wildcard [OF assms, of data rest]
  have not_list: "get_field_value data (PStr (base @ ''[*]'' @ rest)) = PList []"
    if "\<not> is_list (get_nested_value data base)"
    using that resolve by (cases "get_nested_value data base") simp_all
  have as_is: "get_field_value data (PStr (base @ ''[*]'' @ rest)) = PList items"
    if "get_nested_value data base = PList items" "sub_path rest = []"
    using that resolve by simp
  have each: "get_field_value data (PStr (base @ ''[*]'' @ rest)) =
      PList (map (\<lambda>item. get_nested_value item (sub_path rest)) (filter is_dict items))"
    if "get_nested_value data base = PList items" "sub_path rest \<noteq> []"
    using that resolve by simp
  have all_dicts: "filter is_dict items = items" if "list_all is_dict items"
    using that by (simp add: list_all_iff)
  have positional: "\<exists>ys. get_field_value data (PStr (base @ ''[*]'' @ rest)) = PList ys \<and>
      length ys = length items \<and>
      (\<forall>i < length items. ys ! i = get_nested_value (items ! i) (sub_path rest))"
    if "get_nested_value data base = PList items" "sub_path rest \<noteq> []" "list_all is_dict items"
    using each [OF that(1,2)] all_dicts [OF that(3)] by simp
  show ?thesis
    using not_list as_is each positional get_nested_value_key [of k kvs] by blast
qed

text \<open>C3 on an example: \<^verbatim>\<open>disks[*].used\<close> on two mappings, the second without the
  key, gives the value of the first and \<^verbatim>\<open>None\<close> for the second; \<^verbatim>\<open>disks[*]\<close>
  gives the sequence itself; on a base that is a number the result is empty.\<close>

theorem wildcard_resolution_witness:
  "\<not> is_substring ''[*]'' ''disks'' \<and>
   get_field_value
     (PDict [(''disks'', PList [PDict [(''used'', PInt 91)], PDict [(''name'', PStr ''sdb'')]])])
     (PStr ''disks[*].used'') = PList [PInt 91, PNone] \<and>
   get_field_value
     (PDict [(''disks'', PList [PDict [(''used'', PInt 91)], PDict [(''name'', PStr ''sdb'')]])])
     (PStr ''disks[*]'') = PList [PDict [(''used'', PInt 91)], PDict [(''name'', PStr ''sdb'')]] \<and>
   get_field_value (PDict [(''disks'', PInt 3)]) (PStr ''disks[*].used'') = PList []"
proof -
  have base: "\<not> is_substring ''[*]'' ''disks''"
    by (simp add: starts_with_def)
  have key: "CHR ''.'' \<notin> set ''used''" "CHR ''.'' \<notin> set ''disks''"
    by simp_all
  have sub: "sub_path ''.used'' = ''used''" "sub_path [] = []"
    by (simp_all add: sub_path_def starts_with_def)
  have found: "get_nested_value
      (PDict [(''disks'', PList [PDict [(''used'', PInt 91)], PDict [(''name'', PStr ''sdb'')]])])
      ''disks'' = PList [PDict [(''used'', PInt 91)], PDict [(''name'', PStr ''sdb'')]]"
    "get_nested_value (PDict [(''disks'', PInt 3)]) ''disks'' = PInt 3"
    by (simp_all add: get_nested_value_key [OF key(2)])
  have elems: "get_nested_value (PDict [(''used'', PInt 91)]) ''used'' = PInt 91"
    "get_nested_value (PDict [(''name'', PStr ''sdb'')]) ''used'' = PNone"
    by (simp_all add: get_nested_value_key [OF key(1)])
  have a: "get_field_value
     (PDict [(''disks'', PList [PDict [(''used'', PInt 91)], PDict [(''name'', PStr ''sdb'')]])])
     (PStr ''disks[*].used'') = PList [PInt 91, PNone]"
    using wildcard_resolution [OF base,
        of "PDict [(''disks'', PList [PDict [(''used'', PInt 91)], PDict [(''name'', PStr ''sdb'')]])]"
           "''.used''" "[PDict [(''used'', PInt 91)], PDict [(''name'', PStr ''sdb'')]]"
           "''used''" "[]"]
    by (simp add: found sub elems)
  have b: "get_field_value
     (PDict [(''disks'', PList [PDict [(''used'', PInt 91)], PDict [(''name'', PStr ''sdb'')]])])
     (PStr ''disks[*]'') = PList [PDict [(''used'', PInt 91)], PDict [(''name'', PStr ''sdb'')]]"
    using wildcard_resolution [OF base,
        of "PDict [(''disks'', PList [PDict [(''used'', PInt 91)], PDict [(''name'', PStr ''sdb'')]])]"
           "[]" "[PDict [(''used'', PInt 91)], PDict [(''name'', PStr ''sdb'')]]"
           "''used''" "[]"]
    by (simp add: found sub)
  have c: "get_field_value (PDict [(''disks'', PInt 3)]) (PStr ''disks[*].used'') = PList []"
    using wildcard_resolution [OF base, of "PDict [(''disks'', PInt 3)]" "''.used''" "[]" "''used''" "[]"]
    by (simp add: found)
  show ?thesis
    using base a b c by simp
qed

text \<open>
  Claim C3 as stated fails: the base \<^verbatim>\<open>xs\<close> resolves to a sequence that is not a
  sequence of mappings (its first element is a number), and the result of
  \<^verbatim>\<open>xs[*].a\<close> is not the empty sequence: the number is skipped and the mapping
  contributes its value. With the empty sub-path a sequence of numbers is returned as
  it is.
\<close>

theorem wildcard_mixed_sequence_counterexample:
  "get_nested_value (PDict [(''xs'', PList [PInt 1, PDict [(''a'', PInt 2)]])]) ''xs'' =
     PList [PInt 1, PDict [(''a'', PInt 2)]] \<and>
   \<not> list_all is_dict [PInt 1, PDict [(''a'', PInt 2)]] \<and>
   get_field_value (PDict [(''xs'', PList [PInt 1, PDict [(''a'', PInt 2)]])]) (PStr ''xs[*].a'') =
     PList [PInt 2] \<and>
   get_field_value (PDict [(''xs'', PList [PInt 1, PDict [(''a'', PInt 2)]])]) (PStr ''xs[*].a'') \<noteq>
     PList [] \<and>
   get_field_value (PDict [(''xs'', PList [PInt 1, PInt 2])]) (PStr ''xs[*]'') =
     PList [PInt 1, PInt 2]"
proof -
  have base: "\<not> is_substring ''[*]'' ''xs''"
    by (simp add: starts_with_def)
  have key: "CHR ''.'' \<notin> set ''xs''" "CHR ''.'' \<notin> set ''a''"
    by simp_all
  have sub: "sub_path ''.a'' = ''a''" "sub_path [] = []"
    by (simp_all add: sub_path_def starts_with_def)
  have found: "get_nested_value (PDict [(''xs'', PList [PInt 1, PDict [(''a'', PInt 2)]])]) ''xs'' =
      PList [PInt 1, PDict [(''a'', PInt 2)]]"
    "get_nested_value (PDict [(''xs'', PList [PInt 1, PInt 2])]) ''xs'' = PList [PInt 1, PInt 2]"
    by (simp_all add: get_nested_value_key [OF key(1)])
  have elem: "get_nested_value (PDict [(''a'', PInt 2)]) ''a'' = PInt 2"
    by (simp add: get_nested_value_key [OF key(2)])
  have a: "get_field_value (PDict [(''xs'', PList [PInt 1, PDict [(''a'', PInt 2)]])])
      (PStr ''xs[*].a'') = PList [PInt 2]"
    using get_field_value_wildcard [OF base,
        of "PDict [(''xs'', PList [PInt 1, PDict [(''a'', PInt 2)]])]" "''.a''"]
    by (simp add: found sub elem)
  have b: "get_field_value (PDict [(''xs'', PList [PInt 1, PInt 2])]) (PStr ''xs[*]'') =
      PList [PInt 1, PInt 2]"
    using get_field_value_wildcard [OF base, of "PDict [(''xs'', PList [PInt 1, PInt 2])]" "[]"]
    by (simp add: found sub)
  show ?thesis
    using found(1) a b by simp
qed

section \<open>Properties of the rule loader\<close>

lemma append_rules_acc:
  "fst (append_rules L acc ds) = acc @ rules_before_failure L ds"
proof (induction ds arbitrary: acc)
  case Nil
  show ?case by simp
next
  case (Cons d ds)
  show ?case
    by (cases "Rule_init L d") (simp_all add: Cons.IH)
qed

lemma load_rule_file_acc:
  "load_rule_file L acc file = acc @ load_rule_file L [] file"
  by (simp add: load_rule_file_def append_rules_acc
      split: sum.splits pyval.splits option.splits)

lemma load_rule_files:
  "foldl (load_rule_file L) acc files = acc @ concat (map (load_rule_file L []) files)"
proof (induction files arbitrary: acc)
  case Nil
  show ?case by simp
next
  case (Cons f fs)
  show ?case
    using Cons.IH [of "load_rule_file L acc f"] load_rule_file_acc [of L acc f] by simp
qed

text \<open>
  Claim C4, amended: the loaded remote rules are the contributions of the rule files,
  one after the other, and the contribution of a file does not depend on the other
  files:
  \<^item> a file that cannot be read or parsed contributes no rule;
  \<^item> a file whose data is a list of records, or a mapping with a list of records under
    \<^verbatim>\<open>rules\<close>, contributes the rules of the records before the first record that
    class \<^verbatim>\<open>Rule\<close> rejects: all of them when every record is valid, and not
    necessarily none when one is invalid.
\<close>

theorem cached_rule_files_load_independently:
  "remote_rules (load_cached_remote_rules L eng (Some files)) =
     concat (map (load_rule_file L []) files) \<and>
   load_rule_file L [] (Inl e) = [] \<and>
   load_rule_file L [] (Inr (PList ds)) = rules_before_failure L ds \<and>
   (map_of kvs ''rules'' = Some (PList ds) \<longrightarrow>
      load_rule_file L [] (Inr (PDict kvs)) = rules_before_failure L ds) \<and>
   (list_all (\<lambda>d. \<exists>rule. Rule_init L d = Inr rule) ds \<longrightarrow>
      map Inr (rules_before_failure L ds) = map (Rule_init L) ds)"
proof -
  have loaded: "remote_rules (load_cached_remote_rules L eng (Some files)) =
      concat (map (load_rule_file L []) files)"
    using load_rule_files [of L "[]" files] by (simp add: load_cached_remote_rules_def)
  have unparsed: "load_rule_file L [] (Inl e) = []"
    by (simp add: load_rule_file_def)
  have records: "load_rule_file L [] (Inr (PList ds)) = rules_before_failure L ds"
    using append_rules_acc [of L "[]" ds] by (simp add: load_rule_file_def)
  have keyed: "load_rule_file L [] (Inr (PDict kvs)) = rules_before_failure L ds"
    if "map_of kvs ''rules'' = Some (PList ds)"
    using that append_rules_acc [of L "[]" ds] by (simp add: load_rule_file_def py_iter_def)
  have valid: "map Inr (rules_before_failure L ds) = map (Rule_init L) ds"
    if "list_all (\<lambda>d. \<exists>rule. Rule_init L d = Inr rule) ds"
    using that by (induction ds) auto
  show ?thesis
    using loaded unparsed records keyed valid by blast
qed

text \<open>The example of C4: a file that is not valid JSON between two valid files of one
  rule each; two rules are loaded.\<close>

theorem cached_rule_files_load_independently_witness:
  "remote_rules (load_cached_remote_rules strict_runtime (sample_engine [])
      (Some [Inr (PList [sample_record ''r1'']), Inl ValueError,
             Inr (PDict [(''rules'', PList [sample_record ''r2''])])])) =
     [sample_loaded ''r1'', sample_loaded ''r2''] \<and>
   map_of [(''rules'', PList [sample_record ''r2''])] ''rules'' = Some (PList [sample_record ''r2'']) \<and>
   list_all (\<lambda>d. \<exists>rule. Rule_init strict_runtime d = Inr rule) [sample_record ''r1'']"
proof -
  have init: "Rule_init strict_runtime (sample_record rid) = Inr (sample_loaded rid)" for rid
    by (simp add: Rule_init_def strict_runtime_def sample_record_def sample_loaded_def
        strict_rule_def field_str_def field_dicts_def field_bool_def field_float_def)
  have key: "map_of [(''rules'', PList [sample_record ''r2''])] ''rules'' =
      Some (PList [sample_record ''r2''])"
    by simp
  have valid: "list_all (\<lambda>d. \<exists>rule. Rule_init strict_runtime d = Inr rule) [sample_record ''r1'']"
    by (simp add: init)
  have "remote_rules (load_cached_remote_rules strict_runtime (sample_engine [])
      (Some [Inr (PList [sample_record ''r1'']), Inl ValueError,
             Inr (PDict [(''rules'', PList [sample_record ''r2''])])])) =
     [sample_loaded ''r1'', sample_loaded ''r2'']"
    using
      cached_rule_files_load_independently [of strict_runtime "sample_engine []"
        "[Inr (PList [sample_record ''r1'']), Inl ValueError,
          Inr (PDict [(''rules'', PList [sample_record ''r2''])])]"
        ValueError "[sample_record ''r1'']" "[(''rules'', PList [sample_record ''r2''])]"]
      cached_rule_files_load_independently [of strict_runtime "sample_engine []" "[]"
        ValueError "[sample_record ''r2'']" "[(''rules'', PList [sample_record ''r2''])]"]
    by (simp add: init)
  then show ?thesis
    using key valid by simp
qed

text \<open>
  Claim C4 as stated fails for a file that is malformed after its first record: the
  second record has no \<^verbatim>\<open>rule_id\<close>, the constructor of \<^verbatim>\<open>Rule\<close> raises and the
  file is abandoned, but the rule of the first record has already been appended to the
  loaded set. The file contributes one rule, not zero.
\<close>

theorem partly_valid_file_counterexample:
  "snd (append_rules strict_runtime []
          [sample_record ''r1'', PDict [(''name'', PStr ''x'')]]) = Some ValidationError \<and>
   load_rule_file strict_runtime []
     (Inr (PList [sample_record ''r1'', PDict [(''name'', PStr ''x'')]])) = [sample_loaded ''r1''] \<and>
   remote_rules (load_cached_remote_rules strict_runtime (sample_engine [])
      (Some [Inr (PList [sample_record ''r1'', PDict [(''name'', PStr ''x'')]])])) =
     [sample_loaded ''r1'']"
proof -
  have good: "Rule_init strict_runtime (sample_record ''r1'') = Inr (sample_loaded ''r1'')"
    by (simp add: Rule_init_def strict_runtime_def sample_record_def sample_loaded_def
        strict_rule_def field_str_def field_dicts_def field_bool_def field_float_def)
  have bad: "Rule_init strict_runtime (PDict [(''name'', PStr ''x'')]) = Inl ValidationError"
    by (simp add: Rule_init_def strict_runtime_def strict_rule_def field_str_def)
  have raised: "snd (append_rules strict_runtime []
      [sample_record ''r1'', PDict [(''name'', PStr ''x'')]]) = Some ValidationError"
    by (simp add: good bad)
  have part: "load_rule_file strict_runtime []
      (Inr (PList [sample_record ''r1'', PDict [(''name'', PStr ''x'')]])) = [sample_loaded ''r1'']"
    by (simp add: load_rule_file_def good bad)
  have "remote_rules (load_cached_remote_rules strict_runtime (sample_engine [])
      (Some [Inr (PList [sample_record ''r1'', PDict [(''name'', PStr ''x'')]])])) =
     [sample_loaded ''r1'']"
    by (simp add: load_cached_remote_rules_def part)
  then show ?thesis
    using raised part by simp
qed

section \<open>Properties of the orchestrator\<close>

lemma run_rules_length: "length (run_rules L cfg snap rules) = length rules"
  by (induction rules) simp_all

lemma run_rules_nth:
  "i < length rules \<Longrightarrow>
   run_rules L cfg snap rules ! i =
     (case execute_single_rule L cfg (rules ! i) snap of
        Inr result \<Rightarrow> result
      | Inl e \<Rightarrow> failed_result (rules ! i))"
proof (induction rules arbitrary: i)
  case Nil
  then show ?case by simp
next
  case (Cons rule rest)
  then show ?case
    by (cases i) (auto split: sum.splits)
qed

lemma execute_single_rule_result:
  assumes "execute_single_rule L cfg rule snap = Inr r"
  shows "res_rule_id r = rule_id rule"
    and "res_confidence r =
           documented_confidence (rule_confidence_threshold cfg) (confidence rule) (matched r)"
proof -
  obtain m ev where c: "check_conditions L (conditions rule) snap = (m, ev)"
    by (cases "check_conditions L (conditions rule) snap")
  obtain taken issues where
    a: "(if m then run_actions L (actions rule) rule ev else Inr ([], [])) = Inr (taken, issues)"
    using assms c
    by (cases "if m then run_actions L (actions rule) rule ev else Inr ([], [])")
      (auto simp: execute_single_rule_def)
  have r: "r = \<lparr>res_rule_id = rule_id rule, matched = m,
      res_confidence =
        (if m \<and> rule_confidence_threshold cfg < confidence rule
         then min 1 ((if m then confidence rule else 0) * 1.1)
         else (if m then confidence rule else 0)),
      evidence = ev, actions_taken = taken, issues_found = issues\<rparr>"
    using assms by (simp add: execute_single_rule_def c a Let_def)
  show "res_rule_id r = rule_id rule"
    by (simp add: r)
  show "res_confidence r =
      documented_confidence (rule_confidence_threshold cfg) (confidence rule) (matched r)"
    by (simp add: r documented_confidence_def not_le)
qed

lemma result_of_rule:
  "res_rule_id (case execute_single_rule L cfg rule snap of
                  Inr result \<Rightarrow> result
                | Inl e \<Rightarrow> failed_result rule) = rule_id rule"
  by (cases "execute_single_rule L cfg rule snap")
    (simp_all add: failed_result_def execute_single_rule_result(1))

lemma run_rules_ids: "map res_rule_id (run_rules L cfg snap rules) = map rule_id rules"
  by (induction rules) (simp_all add: result_of_rule)

lemma documented_confidence_bounded:
  "base \<le> 1 \<or> threshold < base \<Longrightarrow> documented_confidence threshold base m \<le> 1"
  by (auto simp: documented_confidence_def)

lemma sample_rule_fields:
  "rule_id (sample_rule rid en conf acts) = rid"
  "enabled (sample_rule rid en conf acts) = en"
  "confidence (sample_rule rid en conf acts) = conf"
  "actions (sample_rule rid en conf acts) = acts"
  by (simp_all add: sample_rule_def)

lemma sample_engine_fields:
  "get_all_rules (sample_engine rules) = filter enabled rules"
  "rule_confidence_threshold (config (sample_engine rules)) = 0.8"
  by (simp_all add: get_all_rules_def sample_engine_def)

lemma sample_engine_at_fields:
  "get_all_rules (sample_engine_at threshold rules) = filter enabled rules"
  "rule_confidence_threshold (config (sample_engine_at threshold rules)) = threshold"
  by (simp_all add: get_all_rules_def sample_engine_at_def)

lemma sample_condition:
  assumes "\<bar>u\<bar> < 2 ^ 53"
  shows "fst (check_conditions strict_runtime (conditions (sample_rule rid en conf acts))
          (sample_snapshot u)) = (90 < u)"
proof -
  have keys: "split_char CHR ''.'' ''cpu.usage'' = [''cpu'', ''usage'']"
    by simp
  have val: "get_field_value (sample_snapshot u) (PStr ''cpu.usage'') = PInt u"
    by (simp add: get_field_value_def get_field_value_body_def starts_with_def
        get_nested_value_def keys sample_snapshot_def)
  have cmp: "evaluate_condition strict_runtime (PInt u) (PStr ''>'') (PInt 90) PNone = (90 < u)"
    using py_float_small_int [OF assms, of strict_runtime] py_float_small_int [of 90 strict_runtime]
    by (simp add: evaluate_condition_def evaluate_condition_body_def float_compare_def)
  show ?thesis
    by (simp add: sample_rule_def check_condition_def dict_get_def val cmp Let_def
        split: prod.splits)
qed

lemma sample_rule_matched:
  assumes "\<bar>u\<bar> < 2 ^ 53"
  shows "\<exists>r. execute_single_rule strict_runtime cfg (sample_rule rid en conf []) (sample_snapshot u) =
          Inr r \<and> matched r = (90 < u)"
proof -
  obtain m ev where c: "check_conditions strict_runtime
      (conditions (sample_rule rid en conf [])) (sample_snapshot u) = (m, ev)"
    by (cases "check_conditions strict_runtime
      (conditions (sample_rule rid en conf [])) (sample_snapshot u)")
  then have "m = (90 < u)"
    using sample_condition [OF assms, of rid en conf "[]"] by simp
  then show ?thesis
    by (simp add: execute_single_rule_def c sample_rule_fields Let_def)
qed

lemma sample_rule_broken:
  "execute_single_rule strict_runtime cfg (sample_rule rid en conf [broken_action])
     (sample_snapshot 95) = Inl ValidationError"
proof -
  obtain m ev where c: "check_conditions strict_runtime
      (conditions (sample_rule rid en conf [broken_action])) (sample_snapshot 95) = (m, ev)"
    by (cases "check_conditions strict_runtime
      (conditions (sample_rule rid en conf [broken_action])) (sample_snapshot 95)")
  then have m: "m"
    using sample_condition [of 95 rid en conf "[broken_action]"] by simp
  have "execute_action strict_runtime broken_action (sample_rule rid en conf [broken_action]) ev =
      Inl ValidationError"
    by (simp add: execute_action_def broken_action_def dict_get_def pydantic_str_def)
  then show ?thesis
    by (simp add: execute_single_rule_def c m sample_rule_fields)
qed

text \<open>
  Claim C1: \<^verbatim>\<open>execute_rules\<close> returns exactly one result per enabled rule
  (\<open>get_all_rules\<close>), in the order of the rules and under each rule's identifier. The
  result at the position of a rule whose evaluation raises is the unmatched result
  with confidence 0 and empty evidence, actions and issues; the result at the position
  of any other rule is the one its evaluation returns, whatever the other rules do.
\<close>

theorem execute_rules_isolates_failures:
  "length (execute_rules L eng snap) = length (get_all_rules eng) \<and>
   map res_rule_id (execute_rules L eng snap) = map rule_id (get_all_rules eng) \<and>
   (\<forall>i < length (get_all_rules eng).
      case execute_single_rule L (config eng) (get_all_rules eng ! i) snap of
        Inl e \<Rightarrow>
          execute_rules L eng snap ! i =
            \<lparr>res_rule_id = rule_id (get_all_rules eng ! i), matched = False,
             res_confidence = 0, evidence = [], actions_taken = [], issues_found = []\<rparr>
      | Inr result \<Rightarrow> execute_rules L eng snap ! i = result)"
proof -
  have "execute_rules L eng snap ! i =
      (case execute_single_rule L (config eng) (get_all_rules eng ! i) snap of
         Inr result \<Rightarrow> result
       | Inl e \<Rightarrow> failed_result (get_all_rules eng ! i))"
    if "i < length (get_all_rules eng)" for i
    using that by (simp add: execute_rules_def run_rules_nth)
  then have "case execute_single_rule L (config eng) (get_all_rules eng ! i) snap of
        Inl e \<Rightarrow>
          execute_rules L eng snap ! i =
            \<lparr>res_rule_id = rule_id (get_all_rules eng ! i), matched = False,
             res_confidence = 0, evidence = [], actions_taken = [], issues_found = []\<rparr>
      | Inr result \<Rightarrow> execute_rules L eng snap ! i = result"
    if "i < length (get_all_rules eng)" for i
    using that
    by (cases "execute_single_rule L (config eng) (get_all_rules eng ! i) snap")
      (simp_all add: failed_result_def)
  then show ?thesis
    by (simp add: execute_rules_def run_rules_length run_rules_ids)
qed

text \<open>C1 on an example: four rules, the second with an action that raises, the third
  disabled. Three results come back; the second is the unmatched result of rule
  \<^verbatim>\<open>b\<close>, and rule \<^verbatim>\<open>d\<close> after it is still evaluated and matched.\<close>

theorem execute_rules_isolates_failures_witness:
  "1 < length (get_all_rules (sample_engine
         [sample_rule ''a'' True 0.9 [], sample_rule ''b'' True 0.9 [broken_action],
          sample_rule ''c'' False 0.9 [], sample_rule ''d'' True 0.9 []])) \<and>
   execute_single_rule strict_runtime
     (config (sample_engine
         [sample_rule ''a'' True 0.9 [], sample_rule ''b'' True 0.9 [broken_action],
          sample_rule ''c'' False 0.9 [], sample_rule ''d'' True 0.9 []]))
     (sample_rule ''b'' True 0.9 [broken_action]) (sample_snapshot 95) = Inl ValidationError \<and>
   execute_rules strict_runtime
     (sample_engine
         [sample_rule ''a'' True 0.9 [], sample_rule ''b'' True 0.9 [broken_action],
          sample_rule ''c'' False 0.9 [], sample_rule ''d'' True 0.9 []])
     (sample_snapshot 95) ! 1 =
     \<lparr>res_rule_id = ''b'', matched = False, res_confidence = 0, evidence = [],
      actions_taken = [], issues_found = []\<rparr> \<and>
   map res_rule_id (execute_rules strict_runtime
     (sample_engine
         [sample_rule ''a'' True 0.9 [], sample_rule ''b'' True 0.9 [broken_action],
          sample_rule ''c'' False 0.9 [], sample_rule ''d'' True 0.9 []])
     (sample_snapshot 95)) = [''a'', ''b'', ''d''] \<and>
   matched (execute_rules strict_runtime
     (sample_engine
         [sample_rule ''a'' True 0.9 [], sample_rule ''b'' True 0.9 [broken_action],
          sample_rule ''c'' False 0.9 [], sample_rule ''d'' True 0.9 []])
     (sample_snapshot 95) ! 2)"
proof -
  let ?E = "sample_engine
         [sample_rule ''a'' True 0.9 [], sample_rule ''b'' True 0.9 [broken_action],
          sample_rule ''c'' False 0.9 [], sample_rule ''d'' True 0.9 []]"
  have rules: "get_all_rules ?E =
      [sample_rule ''a'' True 0.9 [], sample_rule ''b'' True 0.9 [broken_action],
       sample_rule ''d'' True 0.9 []]"
    by (simp add: sample_engine_fields sample_rule_fields)
  note broken = sample_rule_broken [of "config ?E" "''b''" True "0.9"]
  obtain r where r: "execute_single_rule strict_runtime (config ?E)
      (sample_rule ''d'' True 0.9 []) (sample_snapshot 95) = Inr r" and m: "matched r"
    using sample_rule_matched [of 95 "config ?E" "''d''" True "0.9"] by auto
  note all = execute_rules_isolates_failures [of strict_runtime ?E "sample_snapshot 95"]
  have second: "execute_rules strict_runtime ?E (sample_snapshot 95) ! 1 =
      \<lparr>res_rule_id = ''b'', matched = False, res_confidence = 0, evidence = [],
       actions_taken = [], issues_found = []\<rparr>"
  proof -
    have "1 < length (get_all_rules ?E)"
      unfolding rules by simp
    then have "case execute_single_rule strict_runtime (config ?E) (get_all_rules ?E ! 1)
          (sample_snapshot 95) of
        Inl e \<Rightarrow>
          execute_rules strict_runtime ?E (sample_snapshot 95) ! 1 =
            \<lparr>res_rule_id = rule_id (get_all_rules ?E ! 1), matched = False,
             res_confidence = 0, evidence = [], actions_taken = [], issues_found = []\<rparr>
      | Inr result \<Rightarrow> execute_rules strict_runtime ?E (sample_snapshot 95) ! 1 = result"
      using all by blast
    then show ?thesis
      unfolding rules using broken by (simp add: sample_rule_fields)
  qed
  have third: "matched (execute_rules strict_runtime ?E (sample_snapshot 95) ! 2)"
  proof -
    have "2 < length (get_all_rules ?E)"
      unfolding rules by simp
    then have "case execute_single_rule strict_runtime (config ?E) (get_all_rules ?E ! 2)
          (sample_snapshot 95) of
        Inl e \<Rightarrow>
          execute_rules strict_runtime ?E (sample_snapshot 95) ! 2 =
            \<lparr>res_rule_id = rule_id (get_all_rules ?E ! 2), matched = False,
             res_confidence = 0, evidence = [], actions_taken = [], issues_found = []\<rparr>
      | Inr result \<Rightarrow> execute_rules strict_runtime ?E (sample_snapshot 95) ! 2 = result"
      using all by blast
    then show ?thesis
      unfolding rules using r m by simp
  qed
  have ids: "map res_rule_id (execute_rules strict_runtime ?E (sample_snapshot 95)) =
      [''a'', ''b'', ''d'']"
    using all unfolding rules by (simp add: sample_rule_fields)
  have len: "1 < length (get_all_rules ?E)"
    unfolding rules by simp
  show ?thesis
    using len broken second third ids by simp
qed

text \<open>
  Claim C5, amended: the confidence of the result reported for an enabled rule is the
  documented one: 0 when the result is unmatched, the rule's base confidence when it is
  matched and the base confidence does not exceed the threshold, and the base
  confidence times 1.1 capped at 1 when it does. The reported confidence is at most 1
  when the base confidence exceeds the threshold (a boosted confidence is capped) or is
  itself at most 1; neither the base confidence nor the threshold is bounded by the
  code.
\<close>

theorem reported_confidence_as_documented:
  assumes "i < length (get_all_rules eng)"
  shows "res_confidence (execute_rules L eng snap ! i) =
           documented_confidence (rule_confidence_threshold (config eng))
             (confidence (get_all_rules eng ! i)) (matched (execute_rules L eng snap ! i)) \<and>
         (rule_confidence_threshold (config eng) < confidence (get_all_rules eng ! i) \<longrightarrow>
            res_confidence (execute_rules L eng snap ! i) \<le> 1) \<and>
         (confidence (get_all_rules eng ! i) \<le> 1 \<longrightarrow>
            res_confidence (execute_rules L eng snap ! i) \<le> 1)"
proof -
  let ?rule = "get_all_rules eng ! i"
  let ?result = "execute_rules L eng snap ! i"
  have nth: "?result =
      (case execute_single_rule L (config eng) ?rule snap of
         Inr result \<Rightarrow> result
       | Inl e \<Rightarrow> failed_result ?rule)"
    using assms by (simp add: execute_rules_def run_rules_nth)
  have documented: "res_confidence ?result =
      documented_confidence (rule_confidence_threshold (config eng)) (confidence ?rule)
        (matched ?result)"
  proof (cases "execute_single_rule L (config eng) ?rule snap")
    case (Inl e)
    then show ?thesis
      by (simp add: nth failed_result_def documented_confidence_def)
  next
    case (Inr r)
    then show ?thesis
      using execute_single_rule_result(2) [OF Inr] by (simp add: nth)
  qed
  show ?thesis
    using documented
      documented_confidence_bounded [of "confidence ?rule"
        "rule_confidence_threshold (config eng)" "matched ?result"]
    by simp
qed

text \<open>C5 on examples with the threshold 0.8: a matched rule of base confidence 0.8 is
  reported with 0.8 (not above the threshold, not boosted), one of base confidence 0.95
  with 1 (1.045 capped), and the same rule unmatched with 0.\<close>

theorem reported_confidence_as_documented_witness:
  "1 < length (get_all_rules (sample_engine
         [sample_rule ''a'' True 0.8 [], sample_rule ''b'' True 0.95 []])) \<and>
   res_confidence (execute_rules strict_runtime
      (sample_engine [sample_rule ''a'' True 0.8 [], sample_rule ''b'' True 0.95 []])
      (sample_snapshot 95) ! 0) = 0.8 \<and>
   res_confidence (execute_rules strict_runtime
      (sample_engine [sample_rule ''a'' True 0.8 [], sample_rule ''b'' True 0.95 []])
      (sample_snapshot 95) ! 1) = 1 \<and>
   res_confidence (execute_rules strict_runtime
      (sample_engine [sample_rule ''a'' True 0.8 [], sample_rule ''b'' True 0.95 []])
      (sample_snapshot 50) ! 1) = 0"
proof -
  let ?E = "sample_engine [sample_rule ''a'' True 0.8 [], sample_rule ''b'' True 0.95 []]"
  have rules: "get_all_rules ?E = [sample_rule ''a'' True 0.8 [], sample_rule ''b'' True 0.95 []]"
    by (simp add: sample_engine_fields sample_rule_fields)
  have len: "0 < length (get_all_rules ?E)" "1 < length (get_all_rules ?E)"
    unfolding rules by simp_all
  have m: "matched (execute_rules strict_runtime ?E (sample_snapshot u) ! 0) = (90 < u)"
    "matched (execute_rules strict_runtime ?E (sample_snapshot u) ! 1) = (90 < u)"
    if "\<bar>u\<bar> < 2 ^ 53" for u
    using sample_rule_matched [OF that, of "config ?E" "''a''" True "0.8"]
      sample_rule_matched [OF that, of "config ?E" "''b''" True "0.95"]
    unfolding execute_rules_def rules by auto
  have m95: "matched (execute_rules strict_runtime ?E (sample_snapshot 95) ! 0)"
    "matched (execute_rules strict_runtime ?E (sample_snapshot 95) ! 1)"
    using m [of 95] by simp_all
  have m50: "\<not> matched (execute_rules strict_runtime ?E (sample_snapshot 50) ! 1)"
    using m [of 50] by simp
  have a: "res_confidence (execute_rules strict_runtime ?E (sample_snapshot 95) ! 0) = 0.8"
    using reported_confidence_as_documented [OF len(1), of strict_runtime "sample_snapshot 95"]
    using m95(1) unfolding rules
    by (simp add: sample_rule_fields sample_engine_fields documented_confidence_def)
  have b: "res_confidence (execute_rules strict_runtime ?E (sample_snapshot 95) ! 1) = 1"
    using reported_confidence_as_documented [OF len(2), of strict_runtime "sample_snapshot 95"]
    using m95(2) unfolding rules
    by (simp add: sample_rule_fields sample_engine_fields documented_confidence_def)
  have c: "res_confidence (execute_rules strict_runtime ?E (sample_snapshot 50) ! 1) = 0"
    using reported_confidence_as_documented [OF len(2), of strict_runtime "sample_snapshot 50"]
    using m50 unfolding rules
    by (simp add: sample_rule_fields sample_engine_fields documented_confidence_def)
  show ?thesis
    using len(2) a b c by simp
qed

text \<open>
  Claim C5 as stated fails for a base confidence above 1 that does not exceed the
  threshold: class \<^verbatim>\<open>Rule\<close> accepts the confidence 2 and the configuration the
  threshold 3; the matched rule is not boosted, so not capped, and reports 2.
\<close>

theorem unbounded_confidence_counterexample:
  "get_all_rules (sample_engine_at 3 [sample_rule ''a'' True 2 []]) =
     [sample_rule ''a'' True 2 []] \<and>
   matched (execute_rules strict_runtime (sample_engine_at 3 [sample_rule ''a'' True 2 []])
      (sample_snapshot 95) ! 0) \<and>
   res_confidence (execute_rules strict_runtime (sample_engine_at 3 [sample_rule ''a'' True 2 []])
      (sample_snapshot 95) ! 0) = 2 \<and>
   \<not> res_confidence (execute_rules strict_runtime (sample_engine_at 3 [sample_rule ''a'' True 2 []])
      (sample_snapshot 95) ! 0) \<le> 1"
proof -
  let ?E = "sample_engine_at 3 [sample_rule ''a'' True 2 []]"
  have rules: "get_all_rules ?E = [sample_rule ''a'' True 2 []]"
    by (simp add: sample_engine_at_fields sample_rule_fields)
  obtain r where r: "execute_single_rule strict_runtime (config ?E)
      (sample_rule ''a'' True 2 []) (sample_snapshot 95) = Inr r" and m: "matched r"
    using sample_rule_matched [of 95 "config ?E" "''a''" True 2] by auto
  have result: "execute_rules strict_runtime ?E (sample_snapshot 95) ! 0 = r"
    unfolding execute_rules_def rules using r by simp
  have "res_confidence r = 2"
    using execute_single_rule_result(2) [OF r] m
    by (simp add: sample_engine_at_fields sample_rule_fields documented_confidence_def)
  then show ?thesis
    using rules result m by simp
qed

end
